theory Spec2Isabelle
  imports Main "HOL-Library.Word" "HOL-Library.Sublist"
begin

section \<open>JavaScript strings\<close>

text \<open>
  A JavaScript string is a sequence of UTF-16 code units. A regular expression without
  the \<^verbatim>\<open>u\<close> flag, \<^verbatim>\<open>String.prototype.trim\<close> and string concatenation all work on
  code units, so a string is a list of 16-bit words. \<open>utf16\<close> embeds an ASCII literal.
\<close>

type_synonym jschar = "16 word"
type_synonym jsstring = "jschar list"

definition utf16 :: "string \<Rightarrow> jsstring" where
  "utf16 s = map of_char s"

text \<open>
  The code units matched by \<^verbatim>\<open>\s\<close> and stripped by \<^verbatim>\<open>trim()\<close>: ECMAScript's
  WhiteSpace and LineTerminator (TAB, LF, VT, FF, CR, SP, NBSP, U+1680, U+2000..U+200A,
  U+2028, U+2029, U+202F, U+205F, U+3000, U+FEFF).
\<close>

definition is_space :: "jschar \<Rightarrow> bool" where
  "is_space c \<longleftrightarrow>
     c = 0x09 \<or> c = 0x0A \<or> c = 0x0B \<or> c = 0x0C \<or> c = 0x0D \<or> c = 0x20 \<or> c = 0xA0 \<or>
     c = 0x1680 \<or> (0x2000 \<le> c \<and> c \<le> 0x200A) \<or> c = 0x2028 \<or> c = 0x2029 \<or>
     c = 0x202F \<or> c = 0x205F \<or> c = 0x3000 \<or> c = 0xFEFF"

text \<open>The code units matched by \<^verbatim>\<open>\w\<close>: \<^verbatim>\<open>[A-Za-z0-9_]\<close>.\<close>

definition is_word :: "jschar \<Rightarrow> bool" where
  "is_word c \<longleftrightarrow>
     (0x41 \<le> c \<and> c \<le> 0x5A) \<or> (0x61 \<le> c \<and> c \<le> 0x7A) \<or> (0x30 \<le> c \<and> c \<le> 0x39) \<or> c = 0x5F"

text \<open>\<^verbatim>\<open>String.prototype.trim\<close>: strips white space from both ends.\<close>

definition trim :: "jsstring \<Rightarrow> jsstring" where
  "trim s = rev (dropWhile is_space (rev (dropWhile is_space s)))"

section \<open>The regular expressions of the resolver\<close>

text \<open>
  The two patterns of \<^verbatim>\<open>extractMainClass\<close> are sequences of literal characters,
  greedy \<^verbatim>\<open>+\<close> repetitions of a character class, and one capturing group around such
  a repetition. \<open>Lit c\<close> is the character \<open>c\<close>, \<open>Plus k\<close> is \<^verbatim>\<open>k+\<close> and \<open>Group k\<close>
  is \<^verbatim>\<open>(k+)\<close>.
\<close>

datatype cls = Space | WordChar | NoneOf "jschar list"

fun in_cls :: "cls \<Rightarrow> jschar \<Rightarrow> bool" where
  "in_cls Space c = is_space c"
| "in_cls WordChar c = is_word c"
| "in_cls (NoneOf cs) c = (c \<notin> set cs)"

datatype piece = Lit jschar | Plus cls | Group cls

definition lits :: "string \<Rightarrow> piece list" where
  "lits s = map Lit (utf16 s)"

text \<open>
  A greedy quantifier first takes the longest run and gives characters back one at a
  time while the rest of the pattern fails: \<open>backtrack f n\<close> tries the lengths
  \<open>n, n - 1, \<dots>, 1\<close> in this order.
\<close>

fun backtrack :: "(nat \<Rightarrow> 'a option) \<Rightarrow> nat \<Rightarrow> 'a option" where
  "backtrack f 0 = None"
| "backtrack f (Suc n) = (case f (Suc n) of Some r \<Rightarrow> Some r | None \<Rightarrow> backtrack f n)"

text \<open>
  \<open>match_here ps s\<close> matches the pattern at the start of \<open>s\<close>. The result is the
  number of code units matched and the captures of the groups, in order.
\<close>

fun match_here :: "piece list \<Rightarrow> jsstring \<Rightarrow> (nat \<times> jsstring list) option" where
  "match_here [] s = Some (0, [])"
| "match_here (Lit c # ps) [] = None"
| "match_here (Lit c # ps) (x # xs) =
     (if x = c then map_option (\<lambda>(m, g). (Suc m, g)) (match_here ps xs) else None)"
| "match_here (Plus k # ps) s =
     backtrack (\<lambda>n. map_option (\<lambda>(m, g). (n + m, g)) (match_here ps (drop n s)))
       (length (takeWhile (in_cls k) s))"
| "match_here (Group k # ps) s =
     backtrack (\<lambda>n. map_option (\<lambda>(m, g). (n + m, take n s # g)) (match_here ps (drop n s)))
       (length (takeWhile (in_cls k) s))"

text \<open>
  The array a successful match returns: the matched text at index 0, then the captures.
\<close>

definition match_at :: "piece list \<Rightarrow> jsstring \<Rightarrow> jsstring list option" where
  "match_at re s = map_option (\<lambda>(m, g). take m s # g) (match_here re s)"

text \<open>
  \<^verbatim>\<open>String.prototype.match\<close> with a regular expression that has no \<^verbatim>\<open>g\<close> flag:
  the match at the leftmost position that has one, or \<^verbatim>\<open>null\<close>.
\<close>

fun re_match :: "piece list \<Rightarrow> jsstring \<Rightarrow> jsstring list option" where
  "re_match re [] = match_at re []"
| "re_match re (x # xs) =
     (case match_at re (x # xs) of Some m \<Rightarrow> Some m | None \<Rightarrow> re_match re xs)"

section \<open>The Class-Name Resolver\<close>

subsection \<open>JavaRunner.tsx\<close>

text \<open>\<^verbatim>\<open>/package\s+([^;]+);/\<close> (JavaRunner.tsx, line 114).\<close>

definition package_re :: "piece list" where
  "package_re = lits ''package'' @ [Plus Space, Group (NoneOf (utf16 '';''))] @ lits '';''"

text \<open>\<^verbatim>\<open>/public\s+class\s+(\w+)/\<close> (JavaRunner.tsx, line 115).\<close>

definition class_re :: "piece list" where
  "class_re = lits ''public'' @ [Plus Space] @ lits ''class'' @ [Plus Space, Group WordChar]"

definition extractMainClass :: "jsstring \<Rightarrow> jsstring" where
  "extractMainClass code =
     (let packageMatch = re_match package_re code;
          classMatch = re_match class_re code
      in case classMatch of
           None \<Rightarrow> utf16 ''Main''
         | Some cm \<Rightarrow>
             (let className = cm ! 1
              in case packageMatch of
                   Some pm \<Rightarrow> (let packageName = trim (pm ! 1) in packageName @ utf16 ''.'' @ className)
                 | None \<Rightarrow> className))"

subsection \<open>script.js\<close>

text \<open>\<^verbatim>\<open>/package\s+([^;]+);/\<close> (script.js, line 151).\<close>

definition SimpleJavaRunner_package_re :: "piece list" where
  "SimpleJavaRunner_package_re =
     lits ''package'' @ [Plus Space, Group (NoneOf (utf16 '';''))] @ lits '';''"

text \<open>\<^verbatim>\<open>/public\s+class\s+(\w+)/\<close> (script.js, line 152).\<close>

definition SimpleJavaRunner_class_re :: "piece list" where
  "SimpleJavaRunner_class_re =
     lits ''public'' @ [Plus Space] @ lits ''class'' @ [Plus Space, Group WordChar]"

definition SimpleJavaRunner_extractMainClass :: "jsstring \<Rightarrow> jsstring" where
  "SimpleJavaRunner_extractMainClass code =
     (let packageMatch = re_match SimpleJavaRunner_package_re code;
          classMatch = re_match SimpleJavaRunner_class_re code
      in case classMatch of
           None \<Rightarrow> utf16 ''Main''
         | Some cm \<Rightarrow>
             (let className = cm ! 1
              in case packageMatch of
                   Some pm \<Rightarrow> (let packageName = trim (pm ! 1) in packageName @ utf16 ''.'' @ className)
                 | None \<Rightarrow> className))"

subsection \<open>The default program\<close>

text \<open>
  \<^verbatim>\<open>DEFAULT_JAVA_CODE\<close> (JavaRunner.tsx, lines 15 to 29) and \<^verbatim>\<open>getDefaultJavaCode()\<close>
  (script.js, lines 17 to 33) hold the same text.
\<close>

definition nl :: string where
  "nl = [CHR 0x0A]"

definition DEFAULT_JAVA_CODE :: jsstring where
  \<open>DEFAULT_JAVA_CODE = utf16
      (''public class Main {'' @ nl @
       ''    public static void main(String[] args) {'' @ nl @
       ''        System.out.println("Hello, World!");'' @ nl @
       ''        '' @ nl @
       ''        // Try some basic Java features'' @ nl @
       ''        int number = 42;'' @ nl @
       ''        String message = "The answer is: " + number;'' @ nl @
       ''        System.out.println(message);'' @ nl @
       ''        '' @ nl @
       ''        // Simple loop'' @ nl @
       ''        for (int i = 1; i <= 5; i++) {'' @ nl @
       ''            System.out.println("Count: " + i);'' @ nl @
       ''        }'' @ nl @
       ''    }'' @ nl @
       ''}'')\<close>

section \<open>The external runtime\<close>

text \<open>
  A thrown value is an \<^verbatim>\<open>Error\<close> object, with its name and its message, or any other
  value, given by its string conversion.
\<close>

datatype thrown = ErrorObject jsstring jsstring | Value jsstring

text \<open>\<^verbatim>\<open>error instanceof Error ? error.message : String(error)\<close> (script.js, line 136).\<close>

fun error_message :: "thrown \<Rightarrow> jsstring" where
  "error_message (ErrorObject n m) = m"
| "error_message (Value v) = v"

text \<open>
  \<^verbatim>\<open>String(error)\<close>, which a template literal applies (JavaRunner.tsx, line 181);
  for an \<^verbatim>\<open>Error\<close> object this is \<^verbatim>\<open>Error.prototype.toString\<close>.
\<close>

fun String_of :: "thrown \<Rightarrow> jsstring" where
  "String_of (ErrorObject n m) = (if n = [] then m else if m = [] then n else n @ utf16 '': '' @ m)"
| "String_of (Value v) = v"

text \<open>\<^verbatim>\<open>new TextEncoder().encode(s)\<close>: the UTF-8 bytes of a string.\<close>

datatype bytes = Utf8 jsstring

text \<open>The calls into the runtime, logged in the order they are made.\<close>

datatype call = AddStringFile jsstring bytes | RunMain jsstring jsstring "jsstring list"

text \<open>
  \<^verbatim>\<open>cheerpjRunMain\<close> throws, or returns a promise that is fulfilled with an exit code, is
  rejected, or never settles (\<open>None\<close>). The runtime is a black box: an \<open>engine\<close> says
  what each call does.
\<close>

datatype settlement = Fulfilled int | Rejected thrown

datatype invocation = Throws thrown | Promise "settlement option"

record engine =
  cheerpjAddStringFile :: "jsstring \<Rightarrow> bytes \<Rightarrow> thrown option"
  cheerpjRunMain :: "jsstring \<Rightarrow> jsstring \<Rightarrow> jsstring list \<Rightarrow> invocation"

text \<open>
  \<^verbatim>\<open>runCode\<close> is an \<^verbatim>\<open>async\<close> function with two \<^verbatim>\<open>await\<close>s. It runs in up to three
  segments; a segment ends finished, or suspended on the promise of the compile call or of
  the launch call.
\<close>

datatype task = Finished | AwaitCompile "settlement option" | AwaitLaunch "settlement option"

text \<open>
  What both implementations keep: the busy flag, the editor's text, the text of the console
  element and the content of the element \<^verbatim>\<open>#cheerpjDisplay\<close> (\<open>None\<close> when the element
  is absent), the log of calls into the runtime and the number of armed one-second timers.
  The label of the run button and the loading overlay mirror the busy flag and are left out.
\<close>

record runner =
  isRunning :: bool
  currentCode :: jsstring
  console :: "jsstring option"
  cheerpjDisplay :: "jsstring option"
  calls :: "call list"
  timeouts :: nat

definition classPath :: jsstring where
  "classPath = utf16 ''/app/tools.jar:/files/''"

definition source_path :: jsstring where
  "source_path = utf16 ''/str/Main.java''"

definition javac :: jsstring where
  "javac = utf16 ''com.sun.tools.javac.Main''"

definition javac_args :: "jsstring list" where
  "javac_args = [utf16 ''/str/Main.java'', utf16 ''-d'', utf16 ''/files/'', utf16 ''-Xlint'']"

section \<open>The Execution Orchestrator of JavaRunner.tsx\<close>

text \<open>
  The component adds the state \<^verbatim>\<open>cheerpjReady\<close>, set once \<^verbatim>\<open>cheerpjInit\<close> has
  resolved (lines 65 and 73); \<open>outputRef\<close> says whether \<^verbatim>\<open>outputRef.current\<close> is set.
  A state update is applied before the next handler runs: React renders between two events,
  and \<^verbatim>\<open>runCode\<close> is created again from the new state.
\<close>

record react = runner +
  cheerpjReady :: bool
  outputRef :: bool

definition clearConsole :: "react \<Rightarrow> react" where
  "clearConsole s = (case console s of None \<Rightarrow> s | Some t \<Rightarrow> s\<lparr>console := Some []\<rparr>)"

definition clearOutput :: "react \<Rightarrow> react" where
  "clearOutput s =
     (if outputRef s
      then (case cheerpjDisplay s of None \<Rightarrow> s | Some h \<Rightarrow> s\<lparr>cheerpjDisplay := Some []\<rparr>)
      else s)"

text \<open>The \<^verbatim>\<open>catch\<close> block (lines 178 to 182).\<close>

definition runCode_catch :: "thrown \<Rightarrow> react \<Rightarrow> react" where
  "runCode_catch error s =
     (case console s of
        None \<Rightarrow> s
      | Some t \<Rightarrow> s\<lparr>console := Some (t @ utf16 ''Error: '' @ String_of error @ utf16 nl)\<rparr>)"

text \<open>The \<^verbatim>\<open>finally\<close> block (line 184) arms the timer.\<close>

definition runCode_finally :: "react \<Rightarrow> react" where
  "runCode_finally s = s\<lparr>timeouts := Suc (timeouts s)\<rparr>"

text \<open>The timer's callback, \<^verbatim>\<open>() => setIsRunning(false)\<close>.\<close>

definition timeout_callback :: "react \<Rightarrow> react" where
  "timeout_callback s = s\<lparr>isRunning := False, timeouts := timeouts s - 1\<rparr>"

text \<open>\<^verbatim>\<open>runCode\<close> up to the first \<^verbatim>\<open>await\<close> (lines 147 to 167).\<close>

definition runCode_start :: "engine \<Rightarrow> react \<Rightarrow> react \<times> task" where
  "runCode_start eng s =
     (if \<not> cheerpjReady s \<or> isRunning s then (s, Finished)
      else
        let s1 = clearOutput (clearConsole (s\<lparr>isRunning := True\<rparr>));
            s2 = s1\<lparr>calls := calls s1 @ [AddStringFile source_path (Utf8 (currentCode s))]\<rparr>
        in case cheerpjAddStringFile eng source_path (Utf8 (currentCode s)) of
             Some error \<Rightarrow> (runCode_finally (runCode_catch error s2), Finished)
           | None \<Rightarrow>
               (let s3 = s2\<lparr>calls := calls s2 @ [RunMain javac classPath javac_args]\<rparr>
                in case cheerpjRunMain eng javac classPath javac_args of
                     Throws error \<Rightarrow> (runCode_finally (runCode_catch error s3), Finished)
                   | Promise p \<Rightarrow> (s3, AwaitCompile p)))"

text \<open>
  From the first \<^verbatim>\<open>await\<close> to the second (lines 170 to 177), once the compile promise
  has settled. \<open>code\<close> is the \<^verbatim>\<open>currentCode\<close> of the closure, the text the run began with.
\<close>

definition runCode_compiled :: "engine \<Rightarrow> jsstring \<Rightarrow> settlement \<Rightarrow> react \<Rightarrow> react \<times> task" where
  "runCode_compiled eng code outcome s =
     (case outcome of
        Rejected error \<Rightarrow> (runCode_finally (runCode_catch error s), Finished)
      | Fulfilled compileResult \<Rightarrow>
          if compileResult = 0 then
            let mainClass = extractMainClass code;
                s1 = s\<lparr>calls := calls s @ [RunMain mainClass classPath []]\<rparr>
            in case cheerpjRunMain eng mainClass classPath [] of
                 Throws error \<Rightarrow> (runCode_finally (runCode_catch error s1), Finished)
               | Promise p \<Rightarrow> (s1, AwaitLaunch p)
          else
            (runCode_finally
               (case console s of
                  None \<Rightarrow> s
                | Some t \<Rightarrow>
                    s\<lparr>console :=
                        Some (t @ utf16 ''Compilation failed. Check the console for details.'' @ utf16 nl)\<rparr>),
             Finished))"

text \<open>After the second \<^verbatim>\<open>await\<close>, once the launch promise has settled.\<close>

definition runCode_launched :: "settlement \<Rightarrow> react \<Rightarrow> react" where
  "runCode_launched outcome s =
     (case outcome of
        Rejected error \<Rightarrow> runCode_finally (runCode_catch error s)
      | Fulfilled r \<Rightarrow> runCode_finally s)"

text \<open>
  One whole run, no other handler running in between. A promise that never settles leaves
  the run suspended for ever: the \<^verbatim>\<open>finally\<close> block is not reached.
\<close>

definition runCode :: "engine \<Rightarrow> react \<Rightarrow> react" where
  "runCode eng s =
     (case runCode_start eng s of
        (s1, AwaitCompile (Some outcome)) \<Rightarrow>
          (case runCode_compiled eng (currentCode s) outcome s1 of
             (s2, AwaitLaunch (Some outcome2)) \<Rightarrow> runCode_launched outcome2 s2
           | (s2, t2) \<Rightarrow> s2)
      | (s1, t) \<Rightarrow> s1)"

section \<open>The Execution Orchestrator of script.js\<close>

text \<open>
  \<open>observing\<close> says that \<^verbatim>\<open>setupMutationObserver\<close> has run (one second after the page
  loaded, line 243). The observer watches the child lists of the console element and of the
  subtree of \<^verbatim>\<open>#output\<close>, in which \<^verbatim>\<open>cheerpjCreateDisplay\<close> mounts \<^verbatim>\<open>#cheerpjDisplay\<close>.
  A write that removes or adds child nodes of a watched element queues a mutation record
  (\<open>queued\<close>); the observer's callback runs at the next microtask checkpoint, when the
  running script has returned to the event loop.

  script.js keeps no readiness flag. \<open>initialized\<close> is a history variable: it records
  that \<^verbatim>\<open>initializeCheerpJ\<close> got past \<^verbatim>\<open>await cheerpjInit\<close> (line 65). No function of
  script.js reads it.
\<close>

record vanilla = runner +
  observing :: bool
  queued :: bool
  initialized :: bool

definition SimpleJavaRunner_setRunning :: "bool \<Rightarrow> vanilla \<Rightarrow> vanilla" where
  "SimpleJavaRunner_setRunning running s = s\<lparr>isRunning := running\<rparr>"

definition SimpleJavaRunner_clearConsole :: "vanilla \<Rightarrow> vanilla" where
  "SimpleJavaRunner_clearConsole s =
     (case console s of
        None \<Rightarrow> s
      | Some t \<Rightarrow> s\<lparr>console := Some [], queued := queued s \<or> (observing s \<and> t \<noteq> [])\<rparr>)"

definition SimpleJavaRunner_clearOutput :: "vanilla \<Rightarrow> vanilla" where
  "SimpleJavaRunner_clearOutput s =
     (case cheerpjDisplay s of
        None \<Rightarrow> s
      | Some h \<Rightarrow> s\<lparr>cheerpjDisplay := Some [], queued := queued s \<or> (observing s \<and> h \<noteq> [])\<rparr>)"

definition SimpleJavaRunner_showError :: "jsstring \<Rightarrow> vanilla \<Rightarrow> vanilla" where
  "SimpleJavaRunner_showError message s =
     (case console s of
        None \<Rightarrow> s
      | Some t \<Rightarrow>
          s\<lparr>console := Some (t @ utf16 ''Error: '' @ message @ utf16 nl),
            queued := queued s \<or> observing s\<rparr>)"

definition SimpleJavaRunner_setupMutationObserver :: "vanilla \<Rightarrow> vanilla" where
  "SimpleJavaRunner_setupMutationObserver s = s\<lparr>observing := True\<rparr>"

text \<open>The observer's callback (lines 214 to 218).\<close>

definition SimpleJavaRunner_observer :: "vanilla \<Rightarrow> vanilla" where
  "SimpleJavaRunner_observer s = (if isRunning s then SimpleJavaRunner_setRunning False s else s)"

text \<open>The microtask checkpoint: a queued mutation record is delivered to the observer.\<close>

definition deliver :: "vanilla \<Rightarrow> vanilla" where
  "deliver s = (if queued s then SimpleJavaRunner_observer (s\<lparr>queued := False\<rparr>) else s)"

text \<open>The \<^verbatim>\<open>catch\<close> block (lines 134 to 137).\<close>

definition SimpleJavaRunner_runCode_catch :: "thrown \<Rightarrow> vanilla \<Rightarrow> vanilla" where
  "SimpleJavaRunner_runCode_catch error s =
     (let errorMessage = error_message error
      in SimpleJavaRunner_showError (utf16 ''Runtime error: '' @ errorMessage) s)"

text \<open>The \<^verbatim>\<open>finally\<close> block (lines 138 to 146) arms the timer.\<close>

definition SimpleJavaRunner_runCode_finally :: "vanilla \<Rightarrow> vanilla" where
  "SimpleJavaRunner_runCode_finally s = s\<lparr>timeouts := Suc (timeouts s)\<rparr>"

text \<open>The timer's callback (lines 141 to 145).\<close>

definition SimpleJavaRunner_timeout_callback :: "vanilla \<Rightarrow> vanilla" where
  "SimpleJavaRunner_timeout_callback s =
     (let s1 = s\<lparr>timeouts := timeouts s - 1\<rparr>
      in if isRunning s1 then SimpleJavaRunner_setRunning False s1 else s1)"

text \<open>\<^verbatim>\<open>runCode\<close> up to the first \<^verbatim>\<open>await\<close> (lines 105 to 125).\<close>

definition SimpleJavaRunner_runCode_start :: "engine \<Rightarrow> vanilla \<Rightarrow> vanilla \<times> task" where
  "SimpleJavaRunner_runCode_start eng s =
     (if isRunning s then (s, Finished)
      else
        let s1 = SimpleJavaRunner_clearOutput
                   (SimpleJavaRunner_clearConsole (SimpleJavaRunner_setRunning True s));
            s2 = s1\<lparr>calls := calls s1 @ [AddStringFile source_path (Utf8 (currentCode s1))]\<rparr>
        in case cheerpjAddStringFile eng source_path (Utf8 (currentCode s1)) of
             Some error \<Rightarrow>
               (SimpleJavaRunner_runCode_finally (SimpleJavaRunner_runCode_catch error s2), Finished)
           | None \<Rightarrow>
               (let s3 = s2\<lparr>calls := calls s2 @ [RunMain javac classPath javac_args]\<rparr>
                in case cheerpjRunMain eng javac classPath javac_args of
                     Throws error \<Rightarrow>
                       (SimpleJavaRunner_runCode_finally (SimpleJavaRunner_runCode_catch error s3),
                        Finished)
                   | Promise p \<Rightarrow> (s3, AwaitCompile p)))"

text \<open>
  From the first \<^verbatim>\<open>await\<close> to the second (lines 128 to 133). The text is read from
  \<^verbatim>\<open>this.currentCode\<close> when the segment runs.
\<close>

definition SimpleJavaRunner_runCode_compiled :: "engine \<Rightarrow> settlement \<Rightarrow> vanilla \<Rightarrow> vanilla \<times> task" where
  "SimpleJavaRunner_runCode_compiled eng outcome s =
     (case outcome of
        Rejected error \<Rightarrow>
          (SimpleJavaRunner_runCode_finally (SimpleJavaRunner_runCode_catch error s), Finished)
      | Fulfilled compileResult \<Rightarrow>
          if compileResult = 0 then
            let mainClass = SimpleJavaRunner_extractMainClass (currentCode s);
                s1 = s\<lparr>calls := calls s @ [RunMain mainClass classPath []]\<rparr>
            in case cheerpjRunMain eng mainClass classPath [] of
                 Throws error \<Rightarrow>
                   (SimpleJavaRunner_runCode_finally (SimpleJavaRunner_runCode_catch error s1),
                    Finished)
               | Promise p \<Rightarrow> (s1, AwaitLaunch p)
          else
            (SimpleJavaRunner_runCode_finally
               (SimpleJavaRunner_showError
                  (utf16 ''Compilation failed. Check the console for details.'') s),
             Finished))"

text \<open>After the second \<^verbatim>\<open>await\<close>, once the launch promise has settled.\<close>

definition SimpleJavaRunner_runCode_launched :: "settlement \<Rightarrow> vanilla \<Rightarrow> vanilla" where
  "SimpleJavaRunner_runCode_launched outcome s =
     (case outcome of
        Rejected error \<Rightarrow> SimpleJavaRunner_runCode_finally (SimpleJavaRunner_runCode_catch error s)
      | Fulfilled r \<Rightarrow> SimpleJavaRunner_runCode_finally s)"

text \<open>
  A click on the run button or Ctrl/Cmd+Enter (lines 89 and 99): the first segment of
  \<^verbatim>\<open>runCode\<close>, then the microtask checkpoint.
\<close>

definition SimpleJavaRunner_trigger :: "engine \<Rightarrow> vanilla \<Rightarrow> vanilla \<times> task" where
  "SimpleJavaRunner_trigger eng s =
     (case SimpleJavaRunner_runCode_start eng s of (s1, t) \<Rightarrow> (deliver s1, t))"

text \<open>
  One whole run, no other handler running in between; every segment is followed by the
  microtask checkpoint.
\<close>

definition SimpleJavaRunner_runCode :: "engine \<Rightarrow> vanilla \<Rightarrow> vanilla" where
  "SimpleJavaRunner_runCode eng s =
     (case SimpleJavaRunner_trigger eng s of
        (s1, AwaitCompile (Some outcome)) \<Rightarrow>
          (case SimpleJavaRunner_runCode_compiled eng outcome s1 of
             (s2, AwaitLaunch (Some outcome2)) \<Rightarrow>
               deliver (SimpleJavaRunner_runCode_launched outcome2 (deliver s2))
           | (s2, t2) \<Rightarrow> deliver s2)
      | (s1, t) \<Rightarrow> s1)"

section \<open>Declarations in the text\<close>

text \<open>
  \<open>class_decl s w\<close>: the text \<open>s\<close> begins with \<^verbatim>\<open>public\<close>, white space,
  \<^verbatim>\<open>class\<close>, white space and the identifier \<open>w\<close>, which ends where the word
  characters end. \<open>package_decl s r\<close>: the text \<open>s\<close> begins with \<^verbatim>\<open>package\<close>, then
  \<open>r\<close>, then a semicolon, where \<open>r\<close> has no semicolon, begins with white space and has
  at least one more character. \<open>first_class\<close> and \<open>first_package\<close> give the leftmost
  such declaration of a text.
\<close>

definition class_decl :: "jsstring \<Rightarrow> jsstring \<Rightarrow> bool" where
  "class_decl s w \<longleftrightarrow>
     (\<exists>ws1 ws2 rest.
        s = utf16 ''public'' @ ws1 @ utf16 ''class'' @ ws2 @ w @ rest \<and>
        ws1 \<noteq> [] \<and> (\<forall>c\<in>set ws1. is_space c) \<and>
        ws2 \<noteq> [] \<and> (\<forall>c\<in>set ws2. is_space c) \<and>
        w \<noteq> [] \<and> (\<forall>c\<in>set w. is_word c) \<and>
        (rest = [] \<or> \<not> is_word (hd rest)))"

definition package_decl :: "jsstring \<Rightarrow> jsstring \<Rightarrow> bool" where
  "package_decl s r \<longleftrightarrow>
     (\<exists>rest.
        s = utf16 ''package'' @ r @ utf16 '';'' @ rest \<and>
        2 \<le> length r \<and> is_space (hd r) \<and> (\<forall>c\<in>set r. c \<noteq> 59))"

definition first_class :: "jsstring \<Rightarrow> jsstring \<Rightarrow> bool" where
  "first_class code w \<longleftrightarrow>
     (\<exists>i. class_decl (drop i code) w \<and> (\<forall>j<i. \<forall>v. \<not> class_decl (drop j code) v))"

definition first_package :: "jsstring \<Rightarrow> jsstring \<Rightarrow> bool" where
  "first_package code r \<longleftrightarrow>
     (\<exists>i. package_decl (drop i code) r \<and> (\<forall>j<i. \<forall>q. \<not> package_decl (drop j code) q))"

section \<open>Runs and their outcomes\<close>

text \<open>
  \<open>throws_at eng code e cs\<close>: a run on the text \<open>code\<close> throws \<open>e\<close>, the calls made
  up to and including the one that throws being \<open>cs\<close>. The file write throws; or the
  compile call throws or its promise is rejected; or the compiler returns 0 and the launch
  call throws or its promise is rejected.
\<close>

definition throws_at :: "engine \<Rightarrow> jsstring \<Rightarrow> thrown \<Rightarrow> call list \<Rightarrow> bool" where
  "throws_at eng code e cs \<longleftrightarrow>
     (cheerpjAddStringFile eng source_path (Utf8 code) = Some e \<and>
        cs = [AddStringFile source_path (Utf8 code)]) \<or>
     (cheerpjAddStringFile eng source_path (Utf8 code) = None \<and>
        cheerpjRunMain eng javac classPath javac_args \<in> {Throws e, Promise (Some (Rejected e))} \<and>
        cs = [AddStringFile source_path (Utf8 code), RunMain javac classPath javac_args]) \<or>
     (cheerpjAddStringFile eng source_path (Utf8 code) = None \<and>
        cheerpjRunMain eng javac classPath javac_args = Promise (Some (Fulfilled 0)) \<and>
        cheerpjRunMain eng (extractMainClass code) classPath [] \<in>
          {Throws e, Promise (Some (Rejected e))} \<and>
        cs = [AddStringFile source_path (Utf8 code), RunMain javac classPath javac_args,
              RunMain (extractMainClass code) classPath []])"

text \<open>
  \<open>settles eng code\<close>: no promise the run awaits stays pending for ever, so the run
  reaches its \<^verbatim>\<open>finally\<close> block.
\<close>

definition settles :: "engine \<Rightarrow> jsstring \<Rightarrow> bool" where
  "settles eng code \<longleftrightarrow>
     cheerpjAddStringFile eng source_path (Utf8 code) \<noteq> None \<or>
     (cheerpjRunMain eng javac classPath javac_args \<noteq> Promise None \<and>
      (cheerpjRunMain eng javac classPath javac_args \<noteq> Promise (Some (Fulfilled 0)) \<or>
       cheerpjRunMain eng (extractMainClass code) classPath [] \<noteq> Promise None))"

subsection \<open>Concrete runtimes and pages\<close>

text \<open>A runtime that stores the file and whose promises are still pending.\<close>

definition slow_engine :: engine where
  "slow_engine =
     \<lparr>cheerpjAddStringFile = (\<lambda>path content. None),
      cheerpjRunMain = (\<lambda>name cp args. Promise None)\<rparr>"

text \<open>A runtime whose every \<^verbatim>\<open>cheerpjRunMain\<close> is fulfilled with the given exit code.\<close>

definition exit_engine :: "int \<Rightarrow> engine" where
  "exit_engine r =
     \<lparr>cheerpjAddStringFile = (\<lambda>path content. None),
      cheerpjRunMain = (\<lambda>name cp args. Promise (Some (Fulfilled r)))\<rparr>"

text \<open>A runtime whose file write throws \<^verbatim>\<open>new Error("disk full")\<close>.\<close>

definition full_engine :: engine where
  "full_engine =
     \<lparr>cheerpjAddStringFile = (\<lambda>path content. Some (ErrorObject (utf16 ''Error'') (utf16 ''disk full''))),
      cheerpjRunMain = (\<lambda>name cp args. Promise None)\<rparr>"

text \<open>The mounted component, idle and ready, the console holding the output of an earlier run.\<close>

definition mounted :: react where
  "mounted =
     \<lparr>isRunning = False, currentCode = DEFAULT_JAVA_CODE,
      console = Some (utf16 ''Hello, World!'' @ utf16 nl), cheerpjDisplay = Some [],
      calls = [], timeouts = 0, cheerpjReady = True, outputRef = True\<rparr>"

text \<open>
  The page of script.js just after the constructor: \<^verbatim>\<open>initializeCheerpJ\<close> is still
  waiting for \<^verbatim>\<open>cheerpjInit\<close>, the observer is not installed yet.
\<close>

definition loading_page :: vanilla where
  "loading_page =
     \<lparr>isRunning = False, currentCode = DEFAULT_JAVA_CODE,
      console = Some [], cheerpjDisplay = None,
      calls = [], timeouts = 0, observing = False, queued = False, initialized = False\<rparr>"

text \<open>
  The page of script.js after an earlier run: idle, the runtime initialized, the observer
  installed, the console holding the output of that run.
\<close>

definition used_page :: vanilla where
  "used_page =
     \<lparr>isRunning = False, currentCode = DEFAULT_JAVA_CODE,
      console = Some (utf16 ''Hello, World!'' @ utf16 nl), cheerpjDisplay = Some [],
      calls = [], timeouts = 0, observing = True, queued = False, initialized = True\<rparr>"

section \<open>The matcher\<close>

subsection \<open>Backtracking and the leftmost match\<close>

lemma backtrack_None_iff: "backtrack f n = None \<longleftrightarrow> (\<forall>k. 0 < k \<and> k \<le> n \<longrightarrow> f k = None)"
proof (induction n)
  case 0
  show ?case by simp
next
  case (Suc n)
  show ?case
  proof (cases "f (Suc n)")
    case None
    then show ?thesis using Suc by (auto simp: le_Suc_eq)
  next
    case (Some r)
    then show ?thesis by auto
  qed
qed

lemma backtrack_Some_iff:
  "backtrack f n = Some r \<longleftrightarrow>
     (\<exists>k. 0 < k \<and> k \<le> n \<and> f k = Some r \<and> (\<forall>j. k < j \<and> j \<le> n \<longrightarrow> f j = None))"
proof (induction n)
  case 0
  show ?case by simp
next
  case (Suc n)
  show ?case
  proof (cases "f (Suc n)")
    case None
    have "(\<exists>k. 0 < k \<and> k \<le> Suc n \<and> f k = Some r \<and> (\<forall>j. k < j \<and> j \<le> Suc n \<longrightarrow> f j = None)) \<longleftrightarrow>
          (\<exists>k. 0 < k \<and> k \<le> n \<and> f k = Some r \<and> (\<forall>j. k < j \<and> j \<le> n \<longrightarrow> f j = None))"
      using None by (metis le_Suc_eq option.distinct(1))
    then show ?thesis using None Suc by simp
  next
    case (Some r')
    have "(\<exists>k. 0 < k \<and> k \<le> Suc n \<and> f k = Some r \<and> (\<forall>j. k < j \<and> j \<le> Suc n \<longrightarrow> f j = None)) \<longleftrightarrow> r' = r"
    proof
      assume "\<exists>k. 0 < k \<and> k \<le> Suc n \<and> f k = Some r \<and> (\<forall>j. k < j \<and> j \<le> Suc n \<longrightarrow> f j = None)"
      then obtain k where k: "0 < k" "k \<le> Suc n" "f k = Some r" "\<forall>j. k < j \<and> j \<le> Suc n \<longrightarrow> f j = None"
        by blast
      have "k = Suc n"
      proof (rule ccontr)
        assume "k \<noteq> Suc n"
        then have "k < Suc n" using k(2) by simp
        then have "f (Suc n) = None" using k(4) by simp
        then show False using Some by simp
      qed
      then show "r' = r" using k(3) Some by simp
    next
      assume "r' = r"
      then show "\<exists>k. 0 < k \<and> k \<le> Suc n \<and> f k = Some r \<and> (\<forall>j. k < j \<and> j \<le> Suc n \<longrightarrow> f j = None)"
        using Some by (intro exI[of _ "Suc n"]) auto
    qed
    then show ?thesis using Some by simp
  qed
qed

lemma backtrack_top: "0 < n \<Longrightarrow> f n = Some r \<Longrightarrow> backtrack f n = Some r"
  by (cases n) simp_all

lemma backtrack_last_only:
  "(\<And>j. 0 < j \<Longrightarrow> j < n \<Longrightarrow> f j = None) \<Longrightarrow> backtrack f n = (if n = 0 then None else f n)"
proof (cases "f n")
  case None
  assume "\<And>j. 0 < j \<Longrightarrow> j < n \<Longrightarrow> f j = None"
  then have "\<forall>k. 0 < k \<and> k \<le> n \<longrightarrow> f k = None" using None by (metis le_neq_implies_less)
  then show ?thesis using None by (simp add: backtrack_None_iff)
next
  case (Some r)
  then show ?thesis by (cases n) simp_all
qed

lemma match_here_lits:
  "match_here (map Lit cs @ ps) s =
     (if prefix cs s then map_option (\<lambda>(m, g). (length cs + m, g)) (match_here ps (drop (length cs) s))
      else None)"
proof (induction cs arbitrary: s)
  case Nil
  show ?case by (simp add: option.map_ident case_prod_unfold)
next
  case (Cons c cs)
  show ?case
  proof (cases s)
    case Nil
    then show ?thesis by simp
  next
    case (Cons x xs)
    then show ?thesis using Cons.IH[of xs]
      by (auto simp: option.map_comp comp_def case_prod_unfold)
  qed
qed

lemma re_match_None_iff:
  "re_match re s = None \<longleftrightarrow> (\<forall>i\<le>length s. match_at re (drop i s) = None)"
proof (induction s)
  case Nil
  show ?case by simp
next
  case (Cons x xs)
  have "(\<forall>i\<le>length (x # xs). match_at re (drop i (x # xs)) = None) \<longleftrightarrow>
        match_at re (x # xs) = None \<and> (\<forall>i\<le>length xs. match_at re (drop i xs) = None)"
    (is "?L \<longleftrightarrow> ?R")
  proof
    assume l: ?L
    have "match_at re (drop 0 (x # xs)) = None" using l by blast
    moreover have "match_at re (drop i xs) = None" if "i \<le> length xs" for i
      using l[rule_format, of "Suc i"] that by simp
    ultimately show ?R by simp
  next
    assume r: ?R
    show ?L
    proof (intro allI impI)
      fix i assume "i \<le> length (x # xs)"
      then show "match_at re (drop i (x # xs)) = None" using r by (cases i) simp_all
    qed
  qed
  then show ?case using Cons by (simp split: option.split)
qed

lemma re_match_first:
  "i \<le> length s \<Longrightarrow> match_at re (drop i s) = Some m \<Longrightarrow>
   (\<And>j. j < i \<Longrightarrow> match_at re (drop j s) = None) \<Longrightarrow> re_match re s = Some m"
proof (induction s arbitrary: i)
  case Nil
  then show ?case by simp
next
  case (Cons x xs)
  show ?case
  proof (cases i)
    case 0
    then show ?thesis using Cons.prems(2) by simp
  next
    case (Suc i')
    have "match_at re (x # xs) = None" using Cons.prems(3)[of 0] Suc by simp
    moreover have "re_match re xs = Some m"
    proof (rule Cons.IH[of i'])
      show "i' \<le> length xs" using Cons.prems(1) Suc by simp
      show "match_at re (drop i' xs) = Some m" using Cons.prems(2) Suc by simp
      show "match_at re (drop j xs) = None" if "j < i'" for j
        using Cons.prems(3)[of "Suc j"] that Suc by simp
    qed
    ultimately show ?thesis by simp
  qed
qed

lemma re_match_Some_D:
  "re_match re s = Some m \<Longrightarrow>
   \<exists>i\<le>length s. match_at re (drop i s) = Some m \<and> (\<forall>j<i. match_at re (drop j s) = None)"
proof (induction s)
  case Nil
  then show ?case by simp
next
  case (Cons x xs)
  show ?case
  proof (cases "match_at re (x # xs)")
    case (Some m')
    then have "m' = m" using Cons.prems by simp
    then show ?thesis using Some by (intro exI[of _ 0]) simp
  next
    case None
    then have "re_match re xs = Some m" using Cons.prems by simp
    then obtain i where i: "i \<le> length xs" "match_at re (drop i xs) = Some m"
      "\<forall>j<i. match_at re (drop j xs) = None" using Cons.IH by blast
    have "\<forall>j<Suc i. match_at re (drop j (x # xs)) = None"
    proof (intro allI impI)
      fix j assume "j < Suc i"
      then show "match_at re (drop j (x # xs)) = None" using None i(3) by (cases j) simp_all
    qed
    then show ?thesis using i(1,2) by (intro exI[of _ "Suc i"]) simp
  qed
qed

subsection \<open>Runs of a character class\<close>

lemma takeWhile_of_dropWhile: "takeWhile P (dropWhile P s) = []"
  by (induction s) simp_all

lemma takeWhile_drop_run:
  "n \<le> length (takeWhile P s) \<Longrightarrow> takeWhile P (drop n s) = drop n (takeWhile P s)"
proof (induction s arbitrary: n)
  case Nil
  then show ?case by simp
next
  case (Cons x xs)
  then show ?case by (cases n) (auto split: if_splits)
qed

lemma dropWhile_drop_run:
  "n \<le> length (takeWhile P s) \<Longrightarrow> dropWhile P (drop n s) = dropWhile P s"
proof (induction s arbitrary: n)
  case Nil
  then show ?case by simp
next
  case (Cons x xs)
  then show ?case by (cases n) (auto split: if_splits)
qed

lemma hd_drop_run:
  "n < length (takeWhile P s) \<Longrightarrow> drop n s \<noteq> [] \<and> P (hd (drop n s))"
proof (induction s arbitrary: n)
  case Nil
  then show ?case by simp
next
  case (Cons x xs)
  then show ?case by (cases n) (auto split: if_splits)
qed

lemma drop_run_eq_dropWhile: "drop (length (takeWhile P s)) s = dropWhile P s"
  by (simp add: dropWhile_eq_drop)

lemma take_run_eq_takeWhile: "take (length (takeWhile P s)) s = takeWhile P s"
  by (metis takeWhile_eq_take)

lemma plus_commit:
  assumes "\<And>t. t \<noteq> [] \<Longrightarrow> in_cls k (hd t) \<Longrightarrow> match_here ps t = None"
  shows "match_here (Plus k # ps) s =
     (if takeWhile (in_cls k) s = [] then None
      else map_option (\<lambda>(m, g). (length (takeWhile (in_cls k) s) + m, g))
             (match_here ps (dropWhile (in_cls k) s)))"
proof -
  let ?n = "length (takeWhile (in_cls k) s)"
  let ?f = "\<lambda>n. map_option (\<lambda>(m, g). (n + m, g)) (match_here ps (drop n s))"
  have "?f j = None" if "0 < j" "j < ?n" for j
    using hd_drop_run[OF that(2)] assms by simp
  then have "backtrack ?f ?n = (if ?n = 0 then None else ?f ?n)"
    by (rule backtrack_last_only)
  then show ?thesis by (simp add: drop_run_eq_dropWhile)
qed

lemma group_commit:
  assumes "\<And>t. t \<noteq> [] \<Longrightarrow> in_cls k (hd t) \<Longrightarrow> match_here ps t = None"
  shows "match_here (Group k # ps) s =
     (if takeWhile (in_cls k) s = [] then None
      else map_option (\<lambda>(m, g). (length (takeWhile (in_cls k) s) + m, takeWhile (in_cls k) s # g))
             (match_here ps (dropWhile (in_cls k) s)))"
proof -
  let ?n = "length (takeWhile (in_cls k) s)"
  let ?f = "\<lambda>n. map_option (\<lambda>(m, g). (n + m, take n s # g)) (match_here ps (drop n s))"
  have "?f j = None" if "0 < j" "j < ?n" for j
    using hd_drop_run[OF that(2)] assms by simp
  then have "backtrack ?f ?n = (if ?n = 0 then None else ?f ?n)"
    by (rule backtrack_last_only)
  then show ?thesis by (simp add: drop_run_eq_dropWhile take_run_eq_takeWhile)
qed

lemma group_last:
  "match_here [Group k] s =
     (if takeWhile (in_cls k) s = [] then None
      else Some (length (takeWhile (in_cls k) s), [takeWhile (in_cls k) s]))"
proof (cases "takeWhile (in_cls k) s = []")
  case True
  then show ?thesis by simp
next
  case False
  let ?n = "length (takeWhile (in_cls k) s)"
  let ?f = "\<lambda>n. map_option (\<lambda>(m, g). (n + m, take n s # g)) (match_here [] (drop n s))"
  have "0 < ?n" using False by simp
  moreover have "?f ?n = Some (?n, [takeWhile (in_cls k) s])"
    by (simp add: take_run_eq_takeWhile)
  ultimately have "backtrack ?f ?n = Some (?n, [takeWhile (in_cls k) s])"
    by (rule backtrack_top)
  then show ?thesis using False by simp
qed

lemma space_not_word: "is_space c \<Longrightarrow> \<not> is_word c"
  unfolding is_space_def is_word_def word_le_nat_alt by (elim disjE conjE) auto

lemma space_not_semicolon: "is_space c \<Longrightarrow> c \<noteq> 59"
  unfolding is_space_def by auto

lemma space_not_c: "is_space c \<Longrightarrow> c \<noteq> 99"
  unfolding is_space_def by auto

subsection \<open>The two patterns in closed form\<close>

lemma takeWhile_run:
  "(\<forall>x\<in>set xs. P x) \<Longrightarrow> ys = [] \<or> \<not> P (hd ys) \<Longrightarrow> takeWhile P (xs @ ys) = xs"
  by (induction xs) (auto simp: takeWhile_eq_Nil_iff)

lemma dropWhile_run:
  "(\<forall>x\<in>set xs. P x) \<Longrightarrow> ys = [] \<or> \<not> P (hd ys) \<Longrightarrow> dropWhile P (xs @ ys) = ys"
  by (induction xs) (auto simp: dropWhile_eq_self_iff)

lemma takeWhile_narrow:
  "(\<And>x. P x \<Longrightarrow> Q x) \<Longrightarrow> takeWhile P (takeWhile Q s) = takeWhile P s"
  by (induction s) auto

lemma in_cls_eqs:
  "in_cls Space = is_space" "in_cls WordChar = is_word" "in_cls (NoneOf cs) = (\<lambda>c. c \<notin> set cs)"
  by (simp_all add: fun_eq_iff)

lemma match_here_class_re:
  "match_here class_re s =
     (if prefix (utf16 ''public'') s then
        if takeWhile is_space (drop 6 s) = [] then None
        else if prefix (utf16 ''class'') (dropWhile is_space (drop 6 s)) then
          if takeWhile is_space (drop 5 (dropWhile is_space (drop 6 s))) = [] then None
          else if takeWhile is_word (dropWhile is_space (drop 5 (dropWhile is_space (drop 6 s)))) = []
            then None
          else Some (11 + length (takeWhile is_space (drop 6 s))
                 + length (takeWhile is_space (drop 5 (dropWhile is_space (drop 6 s))))
                 + length (takeWhile is_word (dropWhile is_space (drop 5 (dropWhile is_space (drop 6 s))))),
                 [takeWhile is_word (dropWhile is_space (drop 5 (dropWhile is_space (drop 6 s))))])
        else None
      else None)"
proof -
  have tail: "match_here [Plus Space, Group WordChar] t =
      (if takeWhile is_space t = [] then None
       else if takeWhile is_word (dropWhile is_space t) = [] then None
       else Some (length (takeWhile is_space t) + length (takeWhile is_word (dropWhile is_space t)),
                  [takeWhile is_word (dropWhile is_space t)]))" for t
  proof -
    have "match_here (Plus Space # [Group WordChar]) t =
      (if takeWhile (in_cls Space) t = [] then None
       else map_option (\<lambda>(m, g). (length (takeWhile (in_cls Space) t) + m, g))
              (match_here [Group WordChar] (dropWhile (in_cls Space) t)))"
    proof (rule plus_commit)
      fix u :: jsstring assume "u \<noteq> []" "in_cls Space (hd u)"
      then have "takeWhile (in_cls WordChar) u = []" by (cases u) (auto simp: space_not_word)
      then show "match_here [Group WordChar] u = None" by (simp add: group_last del: match_here.simps)
    qed
    then show ?thesis by (simp only: group_last in_cls_eqs) simp
  qed
  have mid: "match_here (Plus Space # map Lit (utf16 ''class'') @ [Plus Space, Group WordChar]) t =
      (if takeWhile is_space t = [] then None
       else map_option (\<lambda>(m, g). (length (takeWhile is_space t) + m, g))
              (match_here (map Lit (utf16 ''class'') @ [Plus Space, Group WordChar]) (dropWhile is_space t)))" for t
  proof -
    have "match_here (Plus Space # map Lit (utf16 ''class'') @ [Plus Space, Group WordChar]) t =
      (if takeWhile (in_cls Space) t = [] then None
       else map_option (\<lambda>(m, g). (length (takeWhile (in_cls Space) t) + m, g))
              (match_here (map Lit (utf16 ''class'') @ [Plus Space, Group WordChar]) (dropWhile (in_cls Space) t)))"
    proof (rule plus_commit)
      fix u :: jsstring assume "u \<noteq> []" "in_cls Space (hd u)"
      then show "match_here (map Lit (utf16 ''class'') @ [Plus Space, Group WordChar]) u = None"
        by (cases u) (auto simp: utf16_def dest: space_not_c)
    qed
    then show ?thesis by (simp only: in_cls_eqs)
  qed
  have len: "length (utf16 ''public'') = 6" "length (utf16 ''class'') = 5"
    by (simp_all add: utf16_def)
  have cr: "class_re = map Lit (utf16 ''public'') @ (Plus Space # map Lit (utf16 ''class'') @ [Plus Space, Group WordChar])"
    by (simp add: class_re_def lits_def)
  show ?thesis
    unfolding cr match_here_lits mid tail len by (simp add: case_prod_unfold)
qed

lemma match_here_package_tail:
  fixes s :: jsstring
  defines "R \<equiv> takeWhile (\<lambda>c. c \<noteq> 59) s"
    and "W \<equiv> takeWhile is_space s"
    and "rest \<equiv> dropWhile (\<lambda>c. c \<noteq> 59) s"
  shows "match_here [Plus Space, Group (NoneOf [59]), Lit 59] s =
     (if W = [] \<or> rest = [] then None
      else if length W < length R then Some (length R + 1, [drop (length W) R])
      else if 2 \<le> length R then Some (length R + 1, [drop (length R - 1) R])
      else None)"
proof -
  let ?k = "NoneOf [59]"
  define f where "f n = map_option (\<lambda>(m, g). (n + m, g)) (match_here [Group ?k, Lit 59] (drop n s))" for n
  have cls: "in_cls ?k = (\<lambda>c. c \<noteq> 59)" by (simp add: fun_eq_iff)
  have WR: "W = takeWhile is_space R"
    unfolding W_def R_def by (rule takeWhile_narrow[symmetric]) (rule space_not_semicolon)
  then have le: "length W \<le> length R" by (metis length_takeWhile_le)
  have grp: "match_here [Group ?k, Lit 59] t =
      (if takeWhile (\<lambda>c. c \<noteq> 59) t = [] \<or> dropWhile (\<lambda>c. c \<noteq> 59) t = [] then None
       else Some (length (takeWhile (\<lambda>c. c \<noteq> 59) t) + 1, [takeWhile (\<lambda>c. c \<noteq> 59) t]))" for t
  proof -
    have "match_here (Group ?k # [Lit 59]) t =
      (if takeWhile (in_cls ?k) t = [] then None
       else map_option (\<lambda>(m, g). (length (takeWhile (in_cls ?k) t) + m, takeWhile (in_cls ?k) t # g))
             (match_here [Lit 59] (dropWhile (in_cls ?k) t)))"
    proof (rule group_commit)
      fix u :: jsstring assume "u \<noteq> []" "in_cls ?k (hd u)"
      then show "match_here [Lit 59] u = None" by (cases u) auto
    qed
    then have eq: "match_here [Group ?k, Lit 59] t =
      (if takeWhile (\<lambda>c. c \<noteq> 59) t = [] then None
       else map_option (\<lambda>(m, g). (length (takeWhile (\<lambda>c. c \<noteq> 59) t) + m, takeWhile (\<lambda>c. c \<noteq> 59) t # g))
             (match_here [Lit 59] (dropWhile (\<lambda>c. c \<noteq> 59) t)))"
      by (simp only: cls)
    show ?thesis
    proof (cases "dropWhile (\<lambda>c. c \<noteq> 59) t")
      case Nil
      show ?thesis unfolding eq Nil by simp
    next
      case (Cons x xs)
      then have "x = 59" using hd_dropWhile[of "\<lambda>c. c \<noteq> 59" t] by simp
      then show ?thesis unfolding eq Cons by simp
    qed
  qed
  have f_eq: "f n = (if n < length R \<and> rest \<noteq> [] then Some (length R + 1, [drop n R]) else None)"
    if "n \<le> length R" for n
  proof -
    have "takeWhile (\<lambda>c. c \<noteq> 59) (drop n s) = drop n R"
      using that unfolding R_def by (rule takeWhile_drop_run)
    moreover have "dropWhile (\<lambda>c. c \<noteq> 59) (drop n s) = rest"
      using that unfolding R_def rest_def by (rule dropWhile_drop_run)
    ultimately show ?thesis using that unfolding f_def grp by auto
  qed
  have start: "match_here [Plus Space, Group ?k, Lit 59] s = backtrack f (length W)"
  proof -
    have "f = (\<lambda>n. map_option (\<lambda>(m, g). (n + m, g)) (match_here [Group ?k, Lit 59] (drop n s)))"
      by (rule ext) (simp only: f_def)
    then show ?thesis by (simp only: match_here.simps(4) in_cls_eqs W_def)
  qed
  show ?thesis
  proof (cases "W = [] \<or> rest = []")
    case True
    have "backtrack f (length W) = None"
      unfolding backtrack_None_iff using True f_eq le by auto
    then show ?thesis using True start by simp
  next
    case False
    then have W: "0 < length W" and rest: "rest \<noteq> []" by simp_all
    show ?thesis
    proof (cases "length W < length R")
      case True
      then have "f (length W) = Some (length R + 1, [drop (length W) R])"
        using f_eq[of "length W"] rest by simp
      then have "backtrack f (length W) = Some (length R + 1, [drop (length W) R])"
        using W by (intro backtrack_top)
      then show ?thesis using True False start by simp
    next
      case neq: False
      then have eq: "length W = length R" using le by simp
      then obtain k where k: "length R = Suc k" using W by (cases "length R") simp_all
      have top: "f (Suc k) = None" using f_eq[of "Suc k"] k by simp
      show ?thesis
      proof (cases k)
        case 0
        then have "backtrack f (length W) = None" using top eq k by simp
        then show ?thesis using neq False start k 0 by simp
      next
        case (Suc k')
        have "f k = Some (length R + 1, [drop k R])" using f_eq[of k] k rest by simp
        then have "backtrack f k = Some (length R + 1, [drop k R])"
          using Suc by (intro backtrack_top) simp_all
        then have "backtrack f (length W) = Some (length R + 1, [drop (length R - 1) R])"
          using top eq k by simp
        then show ?thesis using neq False start k Suc by simp
      qed
    qed
  qed
qed

subsection \<open>Matches and declarations\<close>

lemma trim_spaces:
  assumes "\<forall>c\<in>set xs. is_space c"
  shows "trim xs = []"
proof -
  have d: "dropWhile is_space xs = []" using assms by simp
  show ?thesis unfolding trim_def d by simp
qed

lemma trim_dropWhile: "trim (dropWhile is_space xs) = trim xs"
  by (simp add: trim_def)

lemma class_decl_match:
  assumes "class_decl s w"
  shows "\<exists>n. match_here class_re s = Some (n, [w])"
proof -
  from assms obtain ws1 ws2 rest where
    s: "s = utf16 ''public'' @ ws1 @ utf16 ''class'' @ ws2 @ w @ rest"
    and ws1: "ws1 \<noteq> []" "\<forall>c\<in>set ws1. is_space c"
    and ws2: "ws2 \<noteq> []" "\<forall>c\<in>set ws2. is_space c"
    and w: "w \<noteq> []" "\<forall>c\<in>set w. is_word c"
    and rest: "rest = [] \<or> \<not> is_word (hd rest)"
    unfolding class_decl_def by blast
  have p: "prefix (utf16 ''public'') s" using s by simp
  have d6: "drop 6 s = ws1 @ (utf16 ''class'' @ ws2 @ w @ rest)"
    using s by (simp add: utf16_def)
  have "\<not> is_space (hd (utf16 ''class'' @ ws2 @ w @ rest))"
    using space_not_c by (auto simp: utf16_def)
  then have t1: "takeWhile is_space (drop 6 s) = ws1"
    and r1: "dropWhile is_space (drop 6 s) = utf16 ''class'' @ ws2 @ w @ rest"
    unfolding d6 using ws1(2) by (simp_all add: takeWhile_eq_Nil_iff dropWhile_eq_self_iff)
  have d5: "drop 5 (utf16 ''class'' @ ws2 @ w @ rest) = ws2 @ (w @ rest)"
    by (simp add: utf16_def)
  have "\<not> is_space (hd (w @ rest))" using w space_not_word by (cases w) auto
  then have t2: "takeWhile is_space (ws2 @ (w @ rest)) = ws2"
    and r2: "dropWhile is_space (ws2 @ (w @ rest)) = w @ rest"
    using ws2(2) by (simp_all add: takeWhile_eq_Nil_iff dropWhile_eq_self_iff)
  have t3: "takeWhile is_word (w @ rest) = w"
    using w(2) rest by (simp add: takeWhile_eq_Nil_iff)
  show ?thesis
    unfolding match_here_class_re t1 r1 d5 t2 r2 t3 using p ws1(1) ws2(1) w(1)
    by simp
qed

lemma class_match_decl:
  assumes "match_here class_re s = Some (n, g)"
  shows "\<exists>w. class_decl s w \<and> g = [w]"
proof -
  let ?s1 = "drop 6 s"
  let ?s2 = "dropWhile is_space ?s1"
  let ?s3 = "drop 5 ?s2"
  let ?s4 = "dropWhile is_space ?s3"
  let ?w = "takeWhile is_word ?s4"
  from assms have p: "prefix (utf16 ''public'') s"
    and t1: "takeWhile is_space ?s1 \<noteq> []"
    and c: "prefix (utf16 ''class'') ?s2"
    and t2: "takeWhile is_space ?s3 \<noteq> []"
    and w: "?w \<noteq> []" and g: "g = [?w]"
    unfolding match_here_class_re by (auto split: if_splits)
  have len: "length (utf16 ''public'') = 6" "length (utf16 ''class'') = 5"
    by (simp_all add: utf16_def)
  have e1: "s = utf16 ''public'' @ ?s1"
    using p len(1) by (metis append_eq_conv_conj prefixE)
  have e2: "?s1 = takeWhile is_space ?s1 @ ?s2" by simp
  have e3: "?s2 = utf16 ''class'' @ ?s3"
    using c len(2) by (metis append_eq_conv_conj prefixE)
  have e4: "?s3 = takeWhile is_space ?s3 @ ?s4" by simp
  have e5: "?s4 = ?w @ dropWhile is_word ?s4" by simp
  have s: "s = utf16 ''public'' @ takeWhile is_space ?s1 @ utf16 ''class'' @
      takeWhile is_space ?s3 @ ?w @ dropWhile is_word ?s4"
    using e1 e2 e3 e4 e5 by metis
  have rest: "dropWhile is_word ?s4 = [] \<or> \<not> is_word (hd (dropWhile is_word ?s4))"
    using hd_dropWhile[of is_word ?s4] by blast
  have "class_decl s ?w"
    unfolding class_decl_def
    apply (rule exI[of _ "takeWhile is_space ?s1"])
    apply (rule exI[of _ "takeWhile is_space ?s3"])
    apply (rule exI[of _ "dropWhile is_word ?s4"])
    using s t1 t2 w rest by (auto dest: set_takeWhileD)
  then show ?thesis using g by blast
qed

lemma match_here_package_re:
  "match_here package_re s =
     (if prefix (utf16 ''package'') s
      then map_option (\<lambda>(m, g). (7 + m, g))
             (match_here [Plus Space, Group (NoneOf [59]), Lit 59] (drop 7 s))
      else None)"
proof -
  have pr: "package_re = map Lit (utf16 ''package'') @ [Plus Space, Group (NoneOf [59]), Lit 59]"
    by (simp add: package_re_def lits_def utf16_def)
  have len: "length (utf16 ''package'') = 7" by (simp add: utf16_def)
  show ?thesis unfolding pr match_here_lits len by simp
qed

lemma package_decl_match:
  assumes "package_decl s r"
  shows "\<exists>n cap. match_here package_re s = Some (n, [cap]) \<and> trim cap = trim r"
proof -
  from assms obtain rest where
    s: "s = utf16 ''package'' @ r @ utf16 '';'' @ rest"
    and r: "2 \<le> length r" "is_space (hd r)" "\<forall>c\<in>set r. c \<noteq> 59"
    unfolding package_decl_def by blast
  let ?t = "drop 7 s"
  have p: "prefix (utf16 ''package'') s" using s by simp
  have t: "?t = r @ 59 # rest" using s by (simp add: utf16_def)
  have R: "takeWhile (\<lambda>c. c \<noteq> 59) ?t = r" unfolding t using r(3) by simp
  have rest: "dropWhile (\<lambda>c. c \<noteq> 59) ?t = 59 # rest" unfolding t using r(3) by simp
  have "takeWhile is_space (takeWhile (\<lambda>c. c \<noteq> 59) ?t) = takeWhile is_space ?t"
    by (rule takeWhile_narrow) (rule space_not_semicolon)
  then have W: "takeWhile is_space ?t = takeWhile is_space r" unfolding R by simp
  have rne: "r \<noteq> []" using r(1) by auto
  have Wne: "takeWhile is_space r \<noteq> []" using rne r(2) by (simp add: takeWhile_eq_Nil_iff)
  show ?thesis
  proof (cases "length (takeWhile is_space r) < length r")
    case True
    have "drop (length (takeWhile is_space r)) r = dropWhile is_space r"
      by (rule drop_run_eq_dropWhile)
    then have "trim (drop (length (takeWhile is_space r)) r) = trim r"
      by (simp add: trim_dropWhile)
    moreover have "match_here package_re s =
        Some (7 + (length r + 1), [drop (length (takeWhile is_space r)) r])"
      unfolding match_here_package_re match_here_package_tail R rest W
      using p Wne True by simp
    ultimately show ?thesis by blast
  next
    case False
    then have "length (takeWhile is_space r) = length r"
      using length_takeWhile_le[of is_space r] by simp
    then have "takeWhile is_space r = r"
      by (metis take_all_iff takeWhile_eq_take order_refl)
    then have spaces: "\<forall>c\<in>set r. is_space c" by (metis set_takeWhileD)
    then have "\<forall>c\<in>set (drop (length r - 1) r). is_space c" by (meson in_set_dropD)
    then have "trim (drop (length r - 1) r) = trim r"
      using spaces by (simp add: trim_spaces)
    moreover have "match_here package_re s = Some (7 + (length r + 1), [drop (length r - 1) r])"
      unfolding match_here_package_re match_here_package_tail R rest W
      using p Wne False r(1) by simp
    ultimately show ?thesis by blast
  qed
qed

lemma package_match_decl:
  assumes "match_here package_re s = Some (n, g)"
  shows "\<exists>r. package_decl s r"
proof -
  let ?t = "drop 7 s"
  let ?R = "takeWhile (\<lambda>c. c \<noteq> 59) ?t"
  let ?rest = "dropWhile (\<lambda>c. c \<noteq> 59) ?t"
  from assms have p: "prefix (utf16 ''package'') s"
    and W: "takeWhile is_space ?t \<noteq> []"
    and rest: "?rest \<noteq> []"
    and len: "length (takeWhile is_space ?t) < length ?R \<or> 2 \<le> length ?R"
    unfolding match_here_package_re match_here_package_tail by (auto split: if_splits)
  have l7: "length (utf16 ''package'') = 7" by (simp add: utf16_def)
  have e1: "s = utf16 ''package'' @ ?t" using p l7 by (metis append_eq_conv_conj prefixE)
  obtain x xs where x: "?rest = x # xs" using rest by (cases ?rest) auto
  then have "x = 59" using hd_dropWhile[of "\<lambda>c. c \<noteq> 59" ?t] by simp
  then have e2: "?t = ?R @ utf16 '';'' @ xs"
    using x takeWhile_dropWhile_id[of "\<lambda>c. c \<noteq> 59" ?t] by (simp add: utf16_def)
  have two: "2 \<le> length ?R" using len W by (cases "takeWhile is_space ?t") auto
  obtain y ys where y: "?t = y # ys" "is_space y"
    using W by (cases ?t) (auto split: if_splits)
  then have "hd ?R = y" using space_not_semicolon by simp
  then have sp: "is_space (hd ?R)" using y(2) by simp
  have "\<forall>c\<in>set ?R. c \<noteq> 59" by (auto dest: set_takeWhileD)
  then have "package_decl s ?R"
    unfolding package_decl_def using e1 e2 two sp by (intro exI[of _ xs]) (metis)
  then show ?thesis by blast
qed

lemma class_decl_in_range: "class_decl (drop i code) w \<Longrightarrow> i \<le> length code"
  by (rule ccontr) (simp add: class_decl_def utf16_def)

lemma package_decl_in_range: "package_decl (drop i code) r \<Longrightarrow> i \<le> length code"
  by (rule ccontr) (simp add: package_decl_def utf16_def)

lemma class_match_at_None:
  "(\<forall>v. \<not> class_decl s v) \<Longrightarrow> match_at class_re s = None"
  using class_match_decl[of s] by (cases "match_here class_re s") (auto simp: match_at_def)

lemma package_match_at_None:
  "(\<forall>q. \<not> package_decl s q) \<Longrightarrow> match_at package_re s = None"
  using package_match_decl[of s] by (cases "match_here package_re s") (auto simp: match_at_def)

lemma first_class_match:
  assumes "first_class code w"
  shows "\<exists>m. re_match class_re code = Some [m, w]"
proof -
  from assms obtain i where i: "class_decl (drop i code) w"
    and before: "\<forall>j<i. \<forall>v. \<not> class_decl (drop j code) v"
    unfolding first_class_def by blast
  obtain n where "match_here class_re (drop i code) = Some (n, [w])"
    using class_decl_match[OF i] by blast
  then have at: "match_at class_re (drop i code) = Some [take n (drop i code), w]"
    by (simp add: match_at_def)
  have "re_match class_re code = Some [take n (drop i code), w]"
    using class_decl_in_range[OF i] at
  proof (rule re_match_first)
    fix j assume "j < i"
    then show "match_at class_re (drop j code) = None"
      using before by (intro class_match_at_None) blast
  qed
  then show ?thesis by blast
qed

lemma first_package_match:
  assumes "first_package code r"
  shows "\<exists>m cap. re_match package_re code = Some [m, cap] \<and> trim cap = trim r"
proof -
  from assms obtain i where i: "package_decl (drop i code) r"
    and before: "\<forall>j<i. \<forall>q. \<not> package_decl (drop j code) q"
    unfolding first_package_def by blast
  obtain n cap where m: "match_here package_re (drop i code) = Some (n, [cap])"
    and cap: "trim cap = trim r"
    using package_decl_match[OF i] by blast
  then have at: "match_at package_re (drop i code) = Some [take n (drop i code), cap]"
    by (simp add: match_at_def)
  have "re_match package_re code = Some [take n (drop i code), cap]"
    using package_decl_in_range[OF i] at
  proof (rule re_match_first)
    fix j assume "j < i"
    then show "match_at package_re (drop j code) = None"
      using before by (intro package_match_at_None) blast
  qed
  then show ?thesis using cap by blast
qed

lemma no_class_iff:
  "re_match class_re code = None \<longleftrightarrow> (\<forall>i w. \<not> class_decl (drop i code) w)"
proof
  assume none: "re_match class_re code = None"
  show "\<forall>i w. \<not> class_decl (drop i code) w"
  proof (intro allI notI)
    fix i w assume d: "class_decl (drop i code) w"
    then have "match_at class_re (drop i code) \<noteq> None"
      using class_decl_match[OF d] by (auto simp: match_at_def)
    then show False using none class_decl_in_range[OF d] by (simp add: re_match_None_iff)
  qed
next
  assume "\<forall>i w. \<not> class_decl (drop i code) w"
  then show "re_match class_re code = None"
    by (simp add: re_match_None_iff class_match_at_None)
qed

lemma no_package_iff:
  "re_match package_re code = None \<longleftrightarrow> (\<forall>i r. \<not> package_decl (drop i code) r)"
proof
  assume none: "re_match package_re code = None"
  show "\<forall>i r. \<not> package_decl (drop i code) r"
  proof (intro allI notI)
    fix i r assume d: "package_decl (drop i code) r"
    then have "match_at package_re (drop i code) \<noteq> None"
      using package_decl_match[OF d] by (auto simp: match_at_def)
    then show False using none package_decl_in_range[OF d] by (simp add: re_match_None_iff)
  qed
next
  assume "\<forall>i r. \<not> package_decl (drop i code) r"
  then show "re_match package_re code = None"
    by (simp add: re_match_None_iff package_match_at_None)
qed

lemma first_class_iff:
  "first_class code w \<longleftrightarrow> (\<exists>m. re_match class_re code = Some [m, w])"
proof
  assume "first_class code w"
  then show "\<exists>m. re_match class_re code = Some [m, w]" by (rule first_class_match)
next
  assume "\<exists>m. re_match class_re code = Some [m, w]"
  then obtain m where "re_match class_re code = Some [m, w]" by blast
  then obtain i where i: "i \<le> length code" "match_at class_re (drop i code) = Some [m, w]"
    "\<forall>j<i. match_at class_re (drop j code) = None"
    using re_match_Some_D by blast
  from i(2) obtain n where "match_here class_re (drop i code) = Some (n, [w])"
    by (auto simp: match_at_def)
  then have here: "class_decl (drop i code) w" using class_match_decl by fastforce
  have "\<not> class_decl (drop j code) v" if "j < i" for j v
  proof
    assume "class_decl (drop j code) v"
    then have "match_at class_re (drop j code) \<noteq> None"
      using class_decl_match by (fastforce simp: match_at_def)
    then show False using i(3) that by simp
  qed
  then show "first_class code w" unfolding first_class_def using here by blast
qed

section \<open>Properties of the Class-Name Resolver\<close>

lemma SimpleJavaRunner_resolver_eq: "SimpleJavaRunner_extractMainClass = extractMainClass"
  by (rule ext)
    (simp add: SimpleJavaRunner_extractMainClass_def extractMainClass_def
      SimpleJavaRunner_package_re_def package_re_def SimpleJavaRunner_class_re_def class_re_def)

lemma resolve_both:
  assumes "first_package code r" "first_class code w"
  shows "extractMainClass code = trim r @ utf16 ''.'' @ w"
proof -
  obtain m where c: "re_match class_re code = Some [m, w]"
    using first_class_match[OF assms(2)] by blast
  obtain m' cap where p: "re_match package_re code = Some [m', cap]" and t: "trim cap = trim r"
    using first_package_match[OF assms(1)] by blast
  show ?thesis by (simp add: extractMainClass_def c p t)
qed

lemma resolve_class_only:
  assumes "\<forall>i q. \<not> package_decl (drop i code) q" "first_class code w"
  shows "extractMainClass code = w"
proof -
  obtain m where c: "re_match class_re code = Some [m, w]"
    using first_class_match[OF assms(2)] by blast
  have p: "re_match package_re code = None" using assms(1) by (simp add: no_package_iff)
  show ?thesis by (simp add: extractMainClass_def c p)
qed

lemma resolve_none:
  assumes "\<forall>i w. \<not> class_decl (drop i code) w"
  shows "extractMainClass code = utf16 ''Main''"
proof -
  have "re_match class_re code = None" using assms by (simp add: no_class_iff)
  then show ?thesis by (simp add: extractMainClass_def)
qed

lemmas eval_defs = package_re_def class_re_def lits_def utf16_def match_at_def trim_def
  is_space_def is_word_def

text \<open>
  C10. The resolver of JavaRunner.tsx and the resolver of script.js return the same name
  for every input text.
\<close>

theorem resolver_implementations_agree:
  "SimpleJavaRunner_extractMainClass code = extractMainClass code"
  unfolding SimpleJavaRunner_extractMainClass_def extractMainClass_def
    SimpleJavaRunner_package_re_def package_re_def SimpleJavaRunner_class_re_def class_re_def
  by (rule refl)

text \<open>
  C5. A text with no public-class declaration, at any position, resolves to the fallback
  \<^verbatim>\<open>Main\<close> in both implementations. The text may hold a package declaration: the
  witness has one, and no prefix is attached.
\<close>

theorem no_public_class_resolves_to_Main:
  assumes "\<forall>i w. \<not> class_decl (drop i code) w"
  shows "extractMainClass code = utf16 ''Main'' \<and>
         SimpleJavaRunner_extractMainClass code = utf16 ''Main''"
  using resolve_none[OF assms] by (simp add: SimpleJavaRunner_resolver_eq)

text \<open>The text \<^verbatim>\<open>package a.b; class C {}\<close>: the package pattern matches, the result is \<^verbatim>\<open>Main\<close>.\<close>

theorem no_public_class_resolves_to_Main_witness:
  "re_match package_re (utf16 ''package a.b; class C {}'') = Some [utf16 ''package a.b;'', utf16 ''a.b''] \<and>
   extractMainClass (utf16 ''package a.b; class C {}'') = utf16 ''Main'' \<and>
   SimpleJavaRunner_extractMainClass (utf16 ''package a.b; class C {}'') = utf16 ''Main''"
proof -
  have "re_match class_re (utf16 ''package a.b; class C {}'') = None"
    by (simp add: eval_defs)
  then have h: "\<forall>i w. \<not> class_decl (drop i (utf16 ''package a.b; class C {}'')) w"
    using no_class_iff by blast
  have "re_match package_re (utf16 ''package a.b; class C {}'') = Some [utf16 ''package a.b;'', utf16 ''a.b'']"
    by (simp add: eval_defs)
  then show ?thesis using no_public_class_resolves_to_Main[OF h] by simp
qed

text \<open>
  C4, as stated, fails. The text below is valid Java, holds \<^verbatim>\<open>package com.example;\<close> and
  \<^verbatim>\<open>public class Foo\<close>, and resolves to \<^verbatim>\<open>com.example.Bar\<close>: the class pattern
  matches first at the outer class.
\<close>

theorem resolver_counterexample:
  "sublist (utf16 ''package com.example;'')
     (utf16 ''package com.example; public class Bar { public class Foo {} }'') \<and>
   sublist (utf16 ''public class Foo'')
     (utf16 ''package com.example; public class Bar { public class Foo {} }'') \<and>
   extractMainClass (utf16 ''package com.example; public class Bar { public class Foo {} }'') =
     utf16 ''com.example.Bar'' \<and>
   SimpleJavaRunner_extractMainClass
     (utf16 ''package com.example; public class Bar { public class Foo {} }'') =
     utf16 ''com.example.Bar'' \<and>
   utf16 ''com.example.Bar'' \<noteq> utf16 ''com.example.Foo''"
proof -
  have split: "utf16 ''package com.example; public class Bar { public class Foo {} }'' =
      [] @ utf16 ''package com.example;'' @ utf16 '' public class Bar { public class Foo {} }''"
    "utf16 ''package com.example; public class Bar { public class Foo {} }'' =
      utf16 ''package com.example; public class Bar { '' @ utf16 ''public class Foo'' @ utf16 '' {} }''"
    by (simp_all add: utf16_def)
  have s1: "sublist (utf16 ''package com.example;'')
     (utf16 ''package com.example; public class Bar { public class Foo {} }'')"
    by (subst split(1)) (rule sublist_appendI)
  have s2: "sublist (utf16 ''public class Foo'')
     (utf16 ''package com.example; public class Bar { public class Foo {} }'')"
    by (subst split(2)) (rule sublist_appendI)
  have r: "extractMainClass (utf16 ''package com.example; public class Bar { public class Foo {} }'') =
     utf16 ''com.example.Bar''"
    by (simp add: extractMainClass_def eval_defs)
  have n: "utf16 ''com.example.Bar'' \<noteq> utf16 ''com.example.Foo''"
    by (simp add: utf16_def)
  show ?thesis using s1 s2 r n by (simp add: SimpleJavaRunner_resolver_eq)
qed

text \<open>
  C4, amended. When the first package declaration of the text is \<^verbatim>\<open>package\<close> \<open>r\<close>
  \<^verbatim>\<open>;\<close> and its first public-class declaration names \<open>w\<close>, both implementations
  return \<open>r\<close> with the white space at both ends stripped, a dot, and \<open>w\<close>. In particular
  a text whose first package declaration is \<^verbatim>\<open>package com.example;\<close> and whose first
  public-class declaration names \<^verbatim>\<open>Foo\<close> resolves to \<^verbatim>\<open>com.example.Foo\<close>.
\<close>

theorem resolver_first_package_and_class:
  "(first_package code r \<and> first_class code w \<longrightarrow>
      extractMainClass code = trim r @ utf16 ''.'' @ w \<and>
      SimpleJavaRunner_extractMainClass code = trim r @ utf16 ''.'' @ w) \<and>
   (first_package code (utf16 '' com.example'') \<and> first_class code (utf16 ''Foo'') \<longrightarrow>
      extractMainClass code = utf16 ''com.example.Foo'' \<and>
      SimpleJavaRunner_extractMainClass code = utf16 ''com.example.Foo'')"
proof -
  have "trim (utf16 '' com.example'') = utf16 ''com.example''"
    by (simp add: trim_def utf16_def is_space_def)
  then show ?thesis
    using resolve_both[of code] by (auto simp: SimpleJavaRunner_resolver_eq utf16_def)
qed

lemma first_package_here: "package_decl code r \<Longrightarrow> first_package code r"
  unfolding first_package_def by (intro exI[of _ 0]) simp

text \<open>A text that begins with the package declaration and goes on with the class.\<close>

theorem resolver_first_package_and_class_witness:
  "extractMainClass (utf16 ''package com.example;  public class Foo extends Bar {}'') =
     utf16 ''com.example.Foo'' \<and>
   SimpleJavaRunner_extractMainClass (utf16 ''package com.example;  public class Foo extends Bar {}'') =
     utf16 ''com.example.Foo''"
proof -
  let ?code = "utf16 ''package com.example;  public class Foo extends Bar {}''"
  have "?code = utf16 ''package'' @ utf16 '' com.example'' @ utf16 '';'' @
      utf16 ''  public class Foo extends Bar {}''"
    by (simp add: utf16_def)
  then have "package_decl ?code (utf16 '' com.example'')"
    unfolding package_decl_def
    by (intro exI[of _ "utf16 ''  public class Foo extends Bar {}''"]) (simp add: utf16_def is_space_def)
  then have p: "first_package ?code (utf16 '' com.example'')" by (rule first_package_here)
  have "re_match class_re ?code = Some [utf16 ''public class Foo'', utf16 ''Foo'']"
    by (simp add: eval_defs)
  then have c: "first_class ?code (utf16 ''Foo'')" using first_class_iff by blast
  show ?thesis
    using resolver_first_package_and_class[of ?code "utf16 '' com.example''" "utf16 ''Foo''"] p c
    by blast
qed

text \<open>
  C6. The result is a function of the leftmost package declaration and the leftmost
  public-class declaration alone: with the first class \<open>w\<close>, the result is the trimmed
  text of the first package declaration, a dot and \<open>w\<close>, or \<open>w\<close> alone when the text has
  no package declaration, whatever declarations follow. In the witness a second public
  class \<^verbatim>\<open>B\<close> is declared at offset 18 and the first one, \<^verbatim>\<open>A\<close>, is used.
\<close>

theorem resolver_uses_first_declarations:
  assumes "first_class code w"
  shows "(first_package code r \<longrightarrow>
            extractMainClass code = trim r @ utf16 ''.'' @ w \<and>
            SimpleJavaRunner_extractMainClass code = trim r @ utf16 ''.'' @ w) \<and>
         ((\<forall>i q. \<not> package_decl (drop i code) q) \<longrightarrow>
            extractMainClass code = w \<and> SimpleJavaRunner_extractMainClass code = w)"
  using assms resolve_both[of code r w] resolve_class_only[of code w]
  by (simp add: SimpleJavaRunner_resolver_eq)

text \<open>Two public classes in one text; then two package declarations as well.\<close>

theorem resolver_uses_first_declarations_witness:
  "extractMainClass (utf16 ''public class A {} public class B {}'') = utf16 ''A'' \<and>
   SimpleJavaRunner_extractMainClass (utf16 ''public class A {} public class B {}'') = utf16 ''A'' \<and>
   match_at class_re (drop 18 (utf16 ''public class A {} public class B {}'')) =
     Some [utf16 ''public class B'', utf16 ''B''] \<and>
   extractMainClass (utf16 ''package p; package q; public class A {} public class B {}'') =
     utf16 ''p.A'' \<and>
   match_at package_re (drop 11 (utf16 ''package p; package q; public class A {} public class B {}'')) =
     Some [utf16 ''package q;'', utf16 ''q'']"
proof -
  let ?code = "utf16 ''public class A {} public class B {}''"
  let ?code2 = "utf16 ''package p; package q; public class A {} public class B {}''"
  have "re_match class_re ?code = Some [utf16 ''public class A'', utf16 ''A'']"
    by (simp add: eval_defs)
  then have c: "first_class ?code (utf16 ''A'')" using first_class_iff by blast
  have "re_match package_re ?code = None" by (simp add: eval_defs)
  then have n: "\<forall>i q. \<not> package_decl (drop i ?code) q" using no_package_iff by blast
  have second: "match_at class_re (drop 18 ?code) = Some [utf16 ''public class B'', utf16 ''B'']"
    by (simp add: eval_defs)
  have "re_match class_re ?code2 = Some [utf16 ''public class A'', utf16 ''A'']"
    by (simp add: eval_defs)
  then have c2: "first_class ?code2 (utf16 ''A'')" using first_class_iff by blast
  have "?code2 = utf16 ''package'' @ utf16 '' p'' @ utf16 '';'' @
      utf16 '' package q; public class A {} public class B {}''"
    by (simp add: utf16_def)
  then have "package_decl ?code2 (utf16 '' p'')"
    unfolding package_decl_def
    by (intro exI[of _ "utf16 '' package q; public class A {} public class B {}''"])
      (simp add: utf16_def is_space_def)
  then have p2: "first_package ?code2 (utf16 '' p'')" by (rule first_package_here)
  have t: "trim (utf16 '' p'') @ utf16 ''.'' @ utf16 ''A'' = utf16 ''p.A''"
    by (simp add: trim_def utf16_def is_space_def)
  have second2: "match_at package_re (drop 11 ?code2) = Some [utf16 ''package q;'', utf16 ''q'']"
    by (simp add: eval_defs)
  show ?thesis
    using resolver_uses_first_declarations[OF c, of "[]"] n second
      resolver_uses_first_declarations[OF c2, of "utf16 '' p''"] p2 t second2
    by simp
qed

section \<open>Properties of the Execution Orchestrator\<close>

subsection \<open>JavaRunner.tsx: fields after each step\<close>

lemma clearConsole_fields [simp]:
  "isRunning (clearConsole s) = isRunning s"
  "currentCode (clearConsole s) = currentCode s"
  "console (clearConsole s) = map_option (\<lambda>t. []) (console s)"
  "cheerpjDisplay (clearConsole s) = cheerpjDisplay s"
  "calls (clearConsole s) = calls s"
  "timeouts (clearConsole s) = timeouts s"
  "cheerpjReady (clearConsole s) = cheerpjReady s"
  "outputRef (clearConsole s) = outputRef s"
  by (simp_all add: clearConsole_def split: option.split)

lemma clearOutput_fields [simp]:
  "isRunning (clearOutput s) = isRunning s"
  "currentCode (clearOutput s) = currentCode s"
  "console (clearOutput s) = console s"
  "calls (clearOutput s) = calls s"
  "timeouts (clearOutput s) = timeouts s"
  "cheerpjReady (clearOutput s) = cheerpjReady s"
  "outputRef (clearOutput s) = outputRef s"
  by (simp_all add: clearOutput_def split: option.split)

lemma runCode_catch_fields [simp]:
  "isRunning (runCode_catch e s) = isRunning s"
  "currentCode (runCode_catch e s) = currentCode s"
  "console (runCode_catch e s) =
     map_option (\<lambda>t. t @ utf16 ''Error: '' @ String_of e @ utf16 nl) (console s)"
  "cheerpjDisplay (runCode_catch e s) = cheerpjDisplay s"
  "calls (runCode_catch e s) = calls s"
  "timeouts (runCode_catch e s) = timeouts s"
  "cheerpjReady (runCode_catch e s) = cheerpjReady s"
  by (simp_all add: runCode_catch_def split: option.split)

lemma runCode_finally_fields [simp]:
  "isRunning (runCode_finally s) = isRunning s"
  "currentCode (runCode_finally s) = currentCode s"
  "console (runCode_finally s) = console s"
  "cheerpjDisplay (runCode_finally s) = cheerpjDisplay s"
  "calls (runCode_finally s) = calls s"
  "timeouts (runCode_finally s) = Suc (timeouts s)"
  "cheerpjReady (runCode_finally s) = cheerpjReady s"
  by (simp_all add: runCode_finally_def)

text \<open>The state when the first segment has cleared the panes and logged \<open>cs\<close>.\<close>

lemma runCode_start_cases:
  assumes "cheerpjReady s" "\<not> isRunning s"
  shows "runCode_start eng s =
     (case cheerpjAddStringFile eng source_path (Utf8 (currentCode s)) of
        Some e \<Rightarrow>
          (runCode_finally (runCode_catch e
             ((clearOutput (clearConsole (s\<lparr>isRunning := True\<rparr>)))
                \<lparr>calls := calls s @ [AddStringFile source_path (Utf8 (currentCode s))]\<rparr>)),
           Finished)
      | None \<Rightarrow>
          (case cheerpjRunMain eng javac classPath javac_args of
             Throws e \<Rightarrow>
               (runCode_finally (runCode_catch e
                  ((clearOutput (clearConsole (s\<lparr>isRunning := True\<rparr>)))
                     \<lparr>calls := calls s @ [AddStringFile source_path (Utf8 (currentCode s)),
                        RunMain javac classPath javac_args]\<rparr>)),
                Finished)
           | Promise p \<Rightarrow>
               ((clearOutput (clearConsole (s\<lparr>isRunning := True\<rparr>)))
                  \<lparr>calls := calls s @ [AddStringFile source_path (Utf8 (currentCode s)),
                     RunMain javac classPath javac_args]\<rparr>,
                AwaitCompile p)))"
  using assms by (simp add: runCode_start_def Let_def split: option.split invocation.split)

lemma runCode_unfold:
  assumes "cheerpjReady s" "\<not> isRunning s"
  shows "runCode eng s =
     (case cheerpjAddStringFile eng source_path (Utf8 (currentCode s)) of
        Some e \<Rightarrow>
          runCode_finally (runCode_catch e
             ((clearOutput (clearConsole (s\<lparr>isRunning := True\<rparr>)))
                \<lparr>calls := calls s @ [AddStringFile source_path (Utf8 (currentCode s))]\<rparr>))
      | None \<Rightarrow>
          (case cheerpjRunMain eng javac classPath javac_args of
             Throws e \<Rightarrow>
               runCode_finally (runCode_catch e
                  ((clearOutput (clearConsole (s\<lparr>isRunning := True\<rparr>)))
                     \<lparr>calls := calls s @ [AddStringFile source_path (Utf8 (currentCode s)),
                        RunMain javac classPath javac_args]\<rparr>))
           | Promise p \<Rightarrow>
               (case p of
                  None \<Rightarrow>
                    (clearOutput (clearConsole (s\<lparr>isRunning := True\<rparr>)))
                      \<lparr>calls := calls s @ [AddStringFile source_path (Utf8 (currentCode s)),
                         RunMain javac classPath javac_args]\<rparr>
                | Some outcome \<Rightarrow>
                    (case runCode_compiled eng (currentCode s) outcome
                       ((clearOutput (clearConsole (s\<lparr>isRunning := True\<rparr>)))
                         \<lparr>calls := calls s @ [AddStringFile source_path (Utf8 (currentCode s)),
                            RunMain javac classPath javac_args]\<rparr>) of
                       (s2, AwaitLaunch (Some outcome2)) \<Rightarrow> runCode_launched outcome2 s2
                     | (s2, t2) \<Rightarrow> s2))))"
  using assms
  by (simp add: runCode_def runCode_start_cases split: option.split invocation.split)

lemma sublist_message: "sublist (error_message e) (t @ utf16 ''Error: '' @ String_of e @ u)"
proof -
  have "sublist m (n @ c @ m)" for m n c :: jsstring
    using sublist_append_leftI[of m "n @ c"] by simp
  then have "sublist (error_message e) (String_of e)" by (cases e) auto
  then obtain p q where "String_of e = p @ error_message e @ q" by (auto simp: sublist_def)
  then have "t @ utf16 ''Error: '' @ String_of e @ u =
      (t @ utf16 ''Error: '' @ p) @ error_message e @ (q @ u)"
    by simp
  then show ?thesis unfolding sublist_def by blast
qed

lemma react_compile_failure:
  assumes "cheerpjReady s" "\<not> isRunning s"
    "cheerpjAddStringFile eng source_path (Utf8 (currentCode s)) = None"
    "cheerpjRunMain eng javac classPath javac_args = Promise (Some (Fulfilled r))"
    "r \<noteq> 0"
  shows "calls (runCode eng s) =
           calls s @ [AddStringFile source_path (Utf8 (currentCode s)), RunMain javac classPath javac_args]"
    and "console (runCode eng s) =
           map_option (\<lambda>t. utf16 ''Compilation failed. Check the console for details.'' @ utf16 nl)
             (console s)"
  using assms
  by (simp_all add: runCode_unfold runCode_compiled_def option.map_comp comp_def
      split: option.split)

lemma react_compile_success:
  assumes "cheerpjReady s" "\<not> isRunning s"
    "cheerpjAddStringFile eng source_path (Utf8 (currentCode s)) = None"
    "cheerpjRunMain eng javac classPath javac_args = Promise (Some (Fulfilled 0))"
  shows "calls (runCode eng s) =
           calls s @ [AddStringFile source_path (Utf8 (currentCode s)), RunMain javac classPath javac_args,
             RunMain (extractMainClass (currentCode s)) classPath []]"
  using assms
  by (simp add: runCode_unfold runCode_compiled_def runCode_launched_def Let_def
      split: invocation.split option.split settlement.split)

lemma react_throws:
  assumes "cheerpjReady s" "\<not> isRunning s" "throws_at eng (currentCode s) e cs"
  shows "calls (runCode eng s) = calls s @ cs"
    and "console (runCode eng s) =
           map_option (\<lambda>t. utf16 ''Error: '' @ String_of e @ utf16 nl) (console s)"
    and "timeouts (runCode eng s) = Suc (timeouts s)"
  using assms unfolding throws_at_def
  by (auto simp: runCode_unfold runCode_compiled_def runCode_launched_def Let_def
      option.map_comp comp_def split: option.split)

lemma react_settles:
  assumes "cheerpjReady s" "\<not> isRunning s" "settles eng (currentCode s)"
  shows "timeouts (runCode eng s) = Suc (timeouts s)"
  using assms unfolding settles_def
  by (auto simp: runCode_unfold runCode_compiled_def runCode_launched_def Let_def
      split: option.split invocation.split settlement.split)

lemma react_busy_after_start:
  assumes "cheerpjReady s" "\<not> isRunning s"
  shows "isRunning (fst (runCode_start eng s))" "cheerpjReady (fst (runCode_start eng s))"
  using assms by (simp_all add: runCode_start_cases split: option.split invocation.split)

lemma runCode_start_rejects:
  "isRunning s \<or> \<not> cheerpjReady s \<Longrightarrow> runCode_start eng s = (s, Finished)"
  by (auto simp: runCode_start_def)

lemma runCode_rejects: "isRunning s \<or> \<not> cheerpjReady s \<Longrightarrow> runCode eng s = s"
  by (simp add: runCode_def runCode_start_rejects)

subsection \<open>script.js: fields after each step\<close>

lemma setRunning_fields [simp]:
  "isRunning (SimpleJavaRunner_setRunning b s) = b"
  "currentCode (SimpleJavaRunner_setRunning b s) = currentCode s"
  "console (SimpleJavaRunner_setRunning b s) = console s"
  "cheerpjDisplay (SimpleJavaRunner_setRunning b s) = cheerpjDisplay s"
  "calls (SimpleJavaRunner_setRunning b s) = calls s"
  "timeouts (SimpleJavaRunner_setRunning b s) = timeouts s"
  "observing (SimpleJavaRunner_setRunning b s) = observing s"
  "queued (SimpleJavaRunner_setRunning b s) = queued s"
  "initialized (SimpleJavaRunner_setRunning b s) = initialized s"
  by (simp_all add: SimpleJavaRunner_setRunning_def)

lemma SimpleJavaRunner_clearConsole_fields [simp]:
  "isRunning (SimpleJavaRunner_clearConsole s) = isRunning s"
  "currentCode (SimpleJavaRunner_clearConsole s) = currentCode s"
  "console (SimpleJavaRunner_clearConsole s) = map_option (\<lambda>t. []) (console s)"
  "cheerpjDisplay (SimpleJavaRunner_clearConsole s) = cheerpjDisplay s"
  "calls (SimpleJavaRunner_clearConsole s) = calls s"
  "timeouts (SimpleJavaRunner_clearConsole s) = timeouts s"
  "observing (SimpleJavaRunner_clearConsole s) = observing s"
  "queued (SimpleJavaRunner_clearConsole s) =
     (queued s \<or> observing s \<and> console s \<noteq> None \<and> console s \<noteq> Some [])"
  "initialized (SimpleJavaRunner_clearConsole s) = initialized s"
  by (auto simp: SimpleJavaRunner_clearConsole_def split: option.split)

lemma SimpleJavaRunner_clearOutput_fields [simp]:
  "isRunning (SimpleJavaRunner_clearOutput s) = isRunning s"
  "currentCode (SimpleJavaRunner_clearOutput s) = currentCode s"
  "console (SimpleJavaRunner_clearOutput s) = console s"
  "cheerpjDisplay (SimpleJavaRunner_clearOutput s) = map_option (\<lambda>t. []) (cheerpjDisplay s)"
  "calls (SimpleJavaRunner_clearOutput s) = calls s"
  "timeouts (SimpleJavaRunner_clearOutput s) = timeouts s"
  "observing (SimpleJavaRunner_clearOutput s) = observing s"
  "queued (SimpleJavaRunner_clearOutput s) =
     (queued s \<or> observing s \<and> cheerpjDisplay s \<noteq> None \<and> cheerpjDisplay s \<noteq> Some [])"
  "initialized (SimpleJavaRunner_clearOutput s) = initialized s"
  by (auto simp: SimpleJavaRunner_clearOutput_def split: option.split)

lemma SimpleJavaRunner_showError_fields [simp]:
  "isRunning (SimpleJavaRunner_showError m s) = isRunning s"
  "currentCode (SimpleJavaRunner_showError m s) = currentCode s"
  "console (SimpleJavaRunner_showError m s) =
     map_option (\<lambda>t. t @ utf16 ''Error: '' @ m @ utf16 nl) (console s)"
  "cheerpjDisplay (SimpleJavaRunner_showError m s) = cheerpjDisplay s"
  "calls (SimpleJavaRunner_showError m s) = calls s"
  "timeouts (SimpleJavaRunner_showError m s) = timeouts s"
  "observing (SimpleJavaRunner_showError m s) = observing s"
  "queued (SimpleJavaRunner_showError m s) = (queued s \<or> observing s \<and> console s \<noteq> None)"
  "initialized (SimpleJavaRunner_showError m s) = initialized s"
  by (auto simp: SimpleJavaRunner_showError_def split: option.split)

lemma SimpleJavaRunner_runCode_catch_fields [simp]:
  "isRunning (SimpleJavaRunner_runCode_catch e s) = isRunning s"
  "currentCode (SimpleJavaRunner_runCode_catch e s) = currentCode s"
  "console (SimpleJavaRunner_runCode_catch e s) =
     map_option (\<lambda>t. t @ utf16 ''Error: '' @ (utf16 ''Runtime error: '' @ error_message e) @ utf16 nl)
       (console s)"
  "cheerpjDisplay (SimpleJavaRunner_runCode_catch e s) = cheerpjDisplay s"
  "calls (SimpleJavaRunner_runCode_catch e s) = calls s"
  "timeouts (SimpleJavaRunner_runCode_catch e s) = timeouts s"
  "observing (SimpleJavaRunner_runCode_catch e s) = observing s"
  "initialized (SimpleJavaRunner_runCode_catch e s) = initialized s"
  by (simp_all add: SimpleJavaRunner_runCode_catch_def)

lemma SimpleJavaRunner_runCode_finally_fields [simp]:
  "isRunning (SimpleJavaRunner_runCode_finally s) = isRunning s"
  "currentCode (SimpleJavaRunner_runCode_finally s) = currentCode s"
  "console (SimpleJavaRunner_runCode_finally s) = console s"
  "cheerpjDisplay (SimpleJavaRunner_runCode_finally s) = cheerpjDisplay s"
  "calls (SimpleJavaRunner_runCode_finally s) = calls s"
  "timeouts (SimpleJavaRunner_runCode_finally s) = Suc (timeouts s)"
  "observing (SimpleJavaRunner_runCode_finally s) = observing s"
  "queued (SimpleJavaRunner_runCode_finally s) = queued s"
  "initialized (SimpleJavaRunner_runCode_finally s) = initialized s"
  by (simp_all add: SimpleJavaRunner_runCode_finally_def)

lemma deliver_fields [simp]:
  "isRunning (deliver s) = (isRunning s \<and> \<not> queued s)"
  "currentCode (deliver s) = currentCode s"
  "console (deliver s) = console s"
  "cheerpjDisplay (deliver s) = cheerpjDisplay s"
  "calls (deliver s) = calls s"
  "timeouts (deliver s) = timeouts s"
  "observing (deliver s) = observing s"
  "queued (deliver s) = False"
  "initialized (deliver s) = initialized s"
  by (auto simp: deliver_def SimpleJavaRunner_observer_def)

lemma SimpleJavaRunner_runCode_start_cases:
  assumes "\<not> isRunning v"
  shows "SimpleJavaRunner_runCode_start eng v =
     (case cheerpjAddStringFile eng source_path (Utf8 (currentCode v)) of
        Some e \<Rightarrow>
          (SimpleJavaRunner_runCode_finally (SimpleJavaRunner_runCode_catch e
             ((SimpleJavaRunner_clearOutput (SimpleJavaRunner_clearConsole
                 (SimpleJavaRunner_setRunning True v)))
                \<lparr>calls := calls v @ [AddStringFile source_path (Utf8 (currentCode v))]\<rparr>)),
           Finished)
      | None \<Rightarrow>
          (case cheerpjRunMain eng javac classPath javac_args of
             Throws e \<Rightarrow>
               (SimpleJavaRunner_runCode_finally (SimpleJavaRunner_runCode_catch e
                  ((SimpleJavaRunner_clearOutput (SimpleJavaRunner_clearConsole
                      (SimpleJavaRunner_setRunning True v)))
                     \<lparr>calls := calls v @ [AddStringFile source_path (Utf8 (currentCode v)),
                        RunMain javac classPath javac_args]\<rparr>)),
                Finished)
           | Promise p \<Rightarrow>
               ((SimpleJavaRunner_clearOutput (SimpleJavaRunner_clearConsole
                   (SimpleJavaRunner_setRunning True v)))
                  \<lparr>calls := calls v @ [AddStringFile source_path (Utf8 (currentCode v)),
                     RunMain javac classPath javac_args]\<rparr>,
                AwaitCompile p)))"
  using assms
  by (simp add: SimpleJavaRunner_runCode_start_def Let_def split: option.split invocation.split)

lemma SimpleJavaRunner_runCode_unfold:
  assumes "\<not> isRunning v"
  shows "SimpleJavaRunner_runCode eng v =
     (case cheerpjAddStringFile eng source_path (Utf8 (currentCode v)) of
        Some e \<Rightarrow>
          deliver (SimpleJavaRunner_runCode_finally (SimpleJavaRunner_runCode_catch e
             ((SimpleJavaRunner_clearOutput (SimpleJavaRunner_clearConsole
                 (SimpleJavaRunner_setRunning True v)))
                \<lparr>calls := calls v @ [AddStringFile source_path (Utf8 (currentCode v))]\<rparr>)))
      | None \<Rightarrow>
          (case cheerpjRunMain eng javac classPath javac_args of
             Throws e \<Rightarrow>
               deliver (SimpleJavaRunner_runCode_finally (SimpleJavaRunner_runCode_catch e
                  ((SimpleJavaRunner_clearOutput (SimpleJavaRunner_clearConsole
                      (SimpleJavaRunner_setRunning True v)))
                     \<lparr>calls := calls v @ [AddStringFile source_path (Utf8 (currentCode v)),
                        RunMain javac classPath javac_args]\<rparr>)))
           | Promise p \<Rightarrow>
               (case p of
                  None \<Rightarrow>
                    deliver ((SimpleJavaRunner_clearOutput (SimpleJavaRunner_clearConsole
                        (SimpleJavaRunner_setRunning True v)))
                      \<lparr>calls := calls v @ [AddStringFile source_path (Utf8 (currentCode v)),
                         RunMain javac classPath javac_args]\<rparr>)
                | Some outcome \<Rightarrow>
                    (case SimpleJavaRunner_runCode_compiled eng outcome
                       (deliver ((SimpleJavaRunner_clearOutput (SimpleJavaRunner_clearConsole
                           (SimpleJavaRunner_setRunning True v)))
                         \<lparr>calls := calls v @ [AddStringFile source_path (Utf8 (currentCode v)),
                            RunMain javac classPath javac_args]\<rparr>)) of
                       (s2, AwaitLaunch (Some outcome2)) \<Rightarrow>
                         deliver (SimpleJavaRunner_runCode_launched outcome2 (deliver s2))
                     | (s2, t2) \<Rightarrow> deliver s2))))"
  using assms
  by (simp add: SimpleJavaRunner_runCode_def SimpleJavaRunner_trigger_def
      SimpleJavaRunner_runCode_start_cases split: option.split invocation.split)

lemma vanilla_compile_failure:
  assumes "\<not> isRunning v"
    "cheerpjAddStringFile eng source_path (Utf8 (currentCode v)) = None"
    "cheerpjRunMain eng javac classPath javac_args = Promise (Some (Fulfilled r))"
    "r \<noteq> 0"
  shows "calls (SimpleJavaRunner_runCode eng v) =
           calls v @ [AddStringFile source_path (Utf8 (currentCode v)), RunMain javac classPath javac_args]"
    and "console (SimpleJavaRunner_runCode eng v) =
           map_option
             (\<lambda>t. utf16 ''Error: '' @ utf16 ''Compilation failed. Check the console for details.'' @ utf16 nl)
             (console v)"
  using assms
  by (simp_all add: SimpleJavaRunner_runCode_unfold SimpleJavaRunner_runCode_compiled_def
      option.map_comp comp_def split: option.split)

lemma vanilla_compile_success:
  assumes "\<not> isRunning v"
    "cheerpjAddStringFile eng source_path (Utf8 (currentCode v)) = None"
    "cheerpjRunMain eng javac classPath javac_args = Promise (Some (Fulfilled 0))"
  shows "calls (SimpleJavaRunner_runCode eng v) =
           calls v @ [AddStringFile source_path (Utf8 (currentCode v)), RunMain javac classPath javac_args,
             RunMain (SimpleJavaRunner_extractMainClass (currentCode v)) classPath []]"
  using assms
  by (simp add: SimpleJavaRunner_runCode_unfold SimpleJavaRunner_runCode_compiled_def
      SimpleJavaRunner_runCode_launched_def Let_def
      split: invocation.split option.split settlement.split)

lemma vanilla_throws:
  assumes "\<not> isRunning v" "throws_at eng (currentCode v) e cs"
  shows "calls (SimpleJavaRunner_runCode eng v) = calls v @ cs"
    and "console (SimpleJavaRunner_runCode eng v) =
           map_option (\<lambda>t. utf16 ''Error: '' @ (utf16 ''Runtime error: '' @ error_message e) @ utf16 nl)
             (console v)"
    and "timeouts (SimpleJavaRunner_runCode eng v) = Suc (timeouts v)"
  using assms unfolding throws_at_def
  by (auto simp: SimpleJavaRunner_runCode_unfold SimpleJavaRunner_runCode_compiled_def
      SimpleJavaRunner_runCode_launched_def SimpleJavaRunner_resolver_eq Let_def
      option.map_comp comp_def split: option.split)

lemma vanilla_settles:
  assumes "\<not> isRunning v" "settles eng (currentCode v)"
  shows "timeouts (SimpleJavaRunner_runCode eng v) = Suc (timeouts v)"
  using assms unfolding settles_def
  by (auto simp: SimpleJavaRunner_runCode_unfold SimpleJavaRunner_runCode_compiled_def
      SimpleJavaRunner_runCode_launched_def SimpleJavaRunner_resolver_eq Let_def
      split: option.split invocation.split settlement.split)

lemma SimpleJavaRunner_runCode_start_rejects:
  "isRunning v \<Longrightarrow> SimpleJavaRunner_runCode_start eng v = (v, Finished)"
  by (simp add: SimpleJavaRunner_runCode_start_def)

lemma timeout_callback_idle:
  "\<not> isRunning (timeout_callback s)" "\<not> isRunning (SimpleJavaRunner_timeout_callback v)"
  by (simp_all add: timeout_callback_def SimpleJavaRunner_timeout_callback_def Let_def)

subsection \<open>The claims\<close>

lemma re_match_skip:
  "x \<noteq> c \<Longrightarrow> re_match (Lit c # ps) (x # xs) = re_match (Lit c # ps) xs"
  by (simp add: match_at_def)

lemma re_match_skip2:
  "y \<noteq> d \<Longrightarrow>
   re_match (Lit c # Lit d # ps) (x # y # xs) = re_match (Lit c # Lit d # ps) (y # xs)"
  by (subst re_match.simps(2)) (simp add: match_at_def del: re_match.simps)

lemma default_resolves: "extractMainClass DEFAULT_JAVA_CODE = utf16 ''Main''"
proof -
  have p: "re_match package_re DEFAULT_JAVA_CODE = None"
    by (simp add: package_re_def lits_def utf16_def DEFAULT_JAVA_CODE_def nl_def
        re_match_skip re_match_skip2 match_at_def del: re_match.simps(2))
  have c: "re_match class_re DEFAULT_JAVA_CODE = Some [utf16 ''public class Main'', utf16 ''Main'']"
    by (simp add: class_re_def lits_def utf16_def DEFAULT_JAVA_CODE_def nl_def match_at_def
        is_space_def is_word_def)
  show ?thesis by (simp add: extractMainClass_def p c)
qed

text \<open>
  C2. When the compiler returns a result other than 0, a run makes the file write and the
  compile call and no other call into the runtime: the launch call is not made. The
  console, cleared at the start of the run, then holds the fixed failure message
  (script.js puts \<^verbatim>\<open>Error: \<close> in front of it). Both implementations.
\<close>

theorem compile_failure_skips_launch:
  assumes "cheerpjAddStringFile eng source_path (Utf8 code) = None"
    and "cheerpjRunMain eng javac classPath javac_args = Promise (Some (Fulfilled r))"
    and "r \<noteq> 0"
  shows "(cheerpjReady s \<and> \<not> isRunning s \<and> currentCode s = code \<longrightarrow>
            calls (runCode eng s) =
              calls s @ [AddStringFile source_path (Utf8 code), RunMain javac classPath javac_args] \<and>
            (console s \<noteq> None \<longrightarrow>
               console (runCode eng s) =
                 Some (utf16 ''Compilation failed. Check the console for details.'' @ utf16 nl))) \<and>
         (\<not> isRunning v \<and> currentCode v = code \<longrightarrow>
            calls (SimpleJavaRunner_runCode eng v) =
              calls v @ [AddStringFile source_path (Utf8 code), RunMain javac classPath javac_args] \<and>
            (console v \<noteq> None \<longrightarrow>
               console (SimpleJavaRunner_runCode eng v) =
                 Some (utf16 ''Error: '' @
                   utf16 ''Compilation failed. Check the console for details.'' @ utf16 nl)))"
  using assms react_compile_failure[of s eng r] vanilla_compile_failure[of v eng r]
  by auto

text \<open>The compiler returns 1: the default program on the mounted component and on the used page.\<close>

theorem compile_failure_skips_launch_witness:
  "calls (runCode (exit_engine 1) mounted) =
     [AddStringFile source_path (Utf8 DEFAULT_JAVA_CODE), RunMain javac classPath javac_args] \<and>
   console (runCode (exit_engine 1) mounted) =
     Some (utf16 ''Compilation failed. Check the console for details.'' @ utf16 nl) \<and>
   calls (SimpleJavaRunner_runCode (exit_engine 1) used_page) =
     [AddStringFile source_path (Utf8 DEFAULT_JAVA_CODE), RunMain javac classPath javac_args] \<and>
   console (SimpleJavaRunner_runCode (exit_engine 1) used_page) =
     Some (utf16 ''Error: '' @ utf16 ''Compilation failed. Check the console for details.'' @ utf16 nl)"
  using compile_failure_skips_launch[of "exit_engine 1" DEFAULT_JAVA_CODE 1 mounted used_page]
  by (simp add: exit_engine_def mounted_def used_page_def)

text \<open>
  C3. When the compiler returns 0, a run makes exactly three calls into the runtime: the
  file write, the compile call, and one launch call, whose name is the resolver's result
  on the current text and whose classpath is the one of the compile call. For the default
  program the launch is \<^verbatim>\<open>cheerpjRunMain("Main", "/app/tools.jar:/files/")\<close>. Both
  implementations.
\<close>

theorem compile_success_launches_resolved_class:
  assumes "cheerpjAddStringFile eng source_path (Utf8 code) = None"
    and "cheerpjRunMain eng javac classPath javac_args = Promise (Some (Fulfilled 0))"
  shows "(cheerpjReady s \<and> \<not> isRunning s \<and> currentCode s = code \<longrightarrow>
            calls (runCode eng s) =
              calls s @ [AddStringFile source_path (Utf8 code), RunMain javac classPath javac_args,
                RunMain (extractMainClass code) classPath []] \<and>
            (code = DEFAULT_JAVA_CODE \<longrightarrow>
               last (calls (runCode eng s)) =
                 RunMain (utf16 ''Main'') (utf16 ''/app/tools.jar:/files/'') [])) \<and>
         (\<not> isRunning v \<and> currentCode v = code \<longrightarrow>
            calls (SimpleJavaRunner_runCode eng v) =
              calls v @ [AddStringFile source_path (Utf8 code), RunMain javac classPath javac_args,
                RunMain (SimpleJavaRunner_extractMainClass code) classPath []] \<and>
            (code = DEFAULT_JAVA_CODE \<longrightarrow>
               last (calls (SimpleJavaRunner_runCode eng v)) =
                 RunMain (utf16 ''Main'') (utf16 ''/app/tools.jar:/files/'') []))"
  using assms react_compile_success[of s eng] vanilla_compile_success[of v eng]
  by (auto simp: default_resolves SimpleJavaRunner_resolver_eq classPath_def)

text \<open>The compiler returns 0 for the default program.\<close>

theorem compile_success_launches_resolved_class_witness:
  "calls (runCode (exit_engine 0) mounted) =
     [AddStringFile source_path (Utf8 DEFAULT_JAVA_CODE), RunMain javac classPath javac_args,
      RunMain (utf16 ''Main'') (utf16 ''/app/tools.jar:/files/'') []] \<and>
   calls (SimpleJavaRunner_runCode (exit_engine 0) used_page) =
     [AddStringFile source_path (Utf8 DEFAULT_JAVA_CODE), RunMain javac classPath javac_args,
      RunMain (utf16 ''Main'') (utf16 ''/app/tools.jar:/files/'') []]"
  using compile_success_launches_resolved_class[of "exit_engine 0" DEFAULT_JAVA_CODE mounted used_page]
  by (simp add: exit_engine_def mounted_def used_page_def default_resolves
      SimpleJavaRunner_resolver_eq classPath_def)

text \<open>
  C7. When the file write, the compile call or the launch call throws \<open>e\<close> (or the awaited
  promise is rejected with \<open>e\<close>), the run still ends: the calls made are those up to the
  one that threw and none after it, the console holds the message of \<open>e\<close>, the timer is
  armed, and its callback leaves the busy flag cleared. Both implementations.
\<close>

theorem thrown_error_is_caught:
  assumes "throws_at eng code e cs"
  shows "(cheerpjReady s \<and> \<not> isRunning s \<and> currentCode s = code \<longrightarrow>
            calls (runCode eng s) = calls s @ cs \<and>
            (console s \<noteq> None \<longrightarrow>
               (\<exists>t. console (runCode eng s) = Some t \<and> sublist (error_message e) t)) \<and>
            timeouts (runCode eng s) = Suc (timeouts s) \<and>
            \<not> isRunning (timeout_callback (runCode eng s))) \<and>
         (\<not> isRunning v \<and> currentCode v = code \<longrightarrow>
            calls (SimpleJavaRunner_runCode eng v) = calls v @ cs \<and>
            (console v \<noteq> None \<longrightarrow>
               (\<exists>t. console (SimpleJavaRunner_runCode eng v) = Some t \<and> sublist (error_message e) t)) \<and>
            timeouts (SimpleJavaRunner_runCode eng v) = Suc (timeouts v) \<and>
            \<not> isRunning (SimpleJavaRunner_timeout_callback (SimpleJavaRunner_runCode eng v)))"
proof -
  have m: "sublist (error_message e) (utf16 ''Error: '' @ String_of e @ utf16 nl)"
    using sublist_message[of e "[]" "utf16 nl"] by simp
  have m': "sublist (error_message e)
      (utf16 ''Error: '' @ (utf16 ''Runtime error: '' @ error_message e) @ utf16 nl)"
    using sublist_appendI[of "error_message e" "utf16 ''Error: '' @ utf16 ''Runtime error: ''" "utf16 nl"]
    by simp
  show ?thesis
    using assms react_throws[of s eng e cs] vanilla_throws[of v eng e cs] m m'
    by (auto simp: timeout_callback_idle)
qed

text \<open>The file write throws \<^verbatim>\<open>new Error("disk full")\<close>.\<close>

theorem thrown_error_is_caught_witness:
  "calls (runCode full_engine mounted) = [AddStringFile source_path (Utf8 DEFAULT_JAVA_CODE)] \<and>
   (\<exists>t. console (runCode full_engine mounted) = Some t \<and> sublist (utf16 ''disk full'') t) \<and>
   timeouts (runCode full_engine mounted) = 1 \<and>
   \<not> isRunning (timeout_callback (runCode full_engine mounted)) \<and>
   calls (SimpleJavaRunner_runCode full_engine used_page) =
     [AddStringFile source_path (Utf8 DEFAULT_JAVA_CODE)] \<and>
   (\<exists>t. console (SimpleJavaRunner_runCode full_engine used_page) = Some t \<and>
      sublist (utf16 ''disk full'') t) \<and>
   timeouts (SimpleJavaRunner_runCode full_engine used_page) = 1 \<and>
   \<not> isRunning (SimpleJavaRunner_timeout_callback (SimpleJavaRunner_runCode full_engine used_page))"
proof -
  have t: "throws_at full_engine DEFAULT_JAVA_CODE (ErrorObject (utf16 ''Error'') (utf16 ''disk full''))
      [AddStringFile source_path (Utf8 DEFAULT_JAVA_CODE)]"
    by (simp add: throws_at_def full_engine_def)
  show ?thesis
    using thrown_error_is_caught[OF t, of mounted used_page]
    by (simp add: mounted_def used_page_def)
qed

text \<open>
  C8. The callback of the fallback timer leaves the busy flag cleared, whatever the state
  it runs in; script.js needs no mutation to have been observed for that. A run whose
  awaited promises settle arms the timer once, whatever its outcome, so after the timer has
  expired the orchestrator is idle. Both implementations.
\<close>

theorem fallback_timer_forces_idle:
  "\<not> isRunning (timeout_callback s0) \<and>
   \<not> isRunning (SimpleJavaRunner_timeout_callback v0) \<and>
   (cheerpjReady s \<and> \<not> isRunning s \<and> settles eng (currentCode s) \<longrightarrow>
      timeouts (runCode eng s) = Suc (timeouts s) \<and>
      \<not> isRunning (timeout_callback (runCode eng s))) \<and>
   (\<not> isRunning v \<and> settles eng (currentCode v) \<longrightarrow>
      timeouts (SimpleJavaRunner_runCode eng v) = Suc (timeouts v) \<and>
      \<not> isRunning (SimpleJavaRunner_timeout_callback (SimpleJavaRunner_runCode eng v)))"
  using react_settles[of s eng] vanilla_settles[of v eng]
  by (auto simp: timeout_callback_idle)

text \<open>A successful run, a failed compilation and a thrown error, each followed by the timer.\<close>

theorem fallback_timer_forces_idle_witness:
  "isRunning (runCode (exit_engine 0) mounted) \<and>
   timeouts (runCode (exit_engine 0) mounted) = 1 \<and>
   \<not> isRunning (timeout_callback (runCode (exit_engine 0) mounted)) \<and>
   timeouts (runCode (exit_engine 1) mounted) = 1 \<and>
   \<not> isRunning (timeout_callback (runCode (exit_engine 1) mounted)) \<and>
   timeouts (SimpleJavaRunner_runCode full_engine loading_page) = 1 \<and>
   \<not> isRunning (SimpleJavaRunner_timeout_callback (SimpleJavaRunner_runCode full_engine loading_page))"
proof -
  have s: "settles (exit_engine 0) DEFAULT_JAVA_CODE" "settles (exit_engine 1) DEFAULT_JAVA_CODE"
    "settles full_engine DEFAULT_JAVA_CODE"
    by (simp_all add: settles_def exit_engine_def full_engine_def)
  have b: "isRunning (runCode (exit_engine 0) mounted)"
    by (simp add: runCode_unfold runCode_compiled_def runCode_launched_def mounted_def
        exit_engine_def Let_def)
  show ?thesis
    using fallback_timer_forces_idle[of mounted loading_page mounted "exit_engine 0" loading_page]
      fallback_timer_forces_idle[of mounted loading_page mounted "exit_engine 1" loading_page]
      fallback_timer_forces_idle[of mounted loading_page mounted full_engine loading_page]
      s b
    by (simp add: mounted_def loading_page_def)
qed

text \<open>
  C9, as stated, fails for script.js, which has no readiness check: on the page just
  after the constructor, before \<^verbatim>\<open>cheerpjInit\<close> has resolved, a trigger sets the busy flag,
  writes the file and starts the compiler.
\<close>

theorem run_before_ready_counterexample:
  "\<not> initialized loading_page \<and> \<not> isRunning loading_page \<and>
   isRunning (fst (SimpleJavaRunner_runCode_start slow_engine loading_page)) \<and>
   calls (fst (SimpleJavaRunner_runCode_start slow_engine loading_page)) =
     [AddStringFile source_path (Utf8 DEFAULT_JAVA_CODE), RunMain javac classPath javac_args] \<and>
   SimpleJavaRunner_runCode_start slow_engine loading_page \<noteq> (loading_page, Finished)"
proof -
  have i: "\<not> isRunning loading_page" "\<not> initialized loading_page"
    by (simp_all add: loading_page_def)
  have r: "isRunning (fst (SimpleJavaRunner_runCode_start slow_engine loading_page))"
    by (simp add: SimpleJavaRunner_runCode_start_cases[OF i(1)] slow_engine_def)
  have c: "calls (fst (SimpleJavaRunner_runCode_start slow_engine loading_page)) =
     [AddStringFile source_path (Utf8 DEFAULT_JAVA_CODE), RunMain javac classPath javac_args]"
    by (simp add: SimpleJavaRunner_runCode_start_cases[OF i(1)] slow_engine_def)
      (simp add: loading_page_def)
  have "fst (SimpleJavaRunner_runCode_start slow_engine loading_page) \<noteq> loading_page"
    using r i(1) by metis
  then show ?thesis using i r c by (metis fst_conv)
qed

text \<open>
  C9, amended. In JavaRunner.tsx a trigger while the busy flag is set, or while the runtime
  is not ready, returns at once and leaves the state as it is: nothing is cleared, no call
  into the runtime is made. In script.js this holds for a trigger while the busy flag is
  set; script.js does not check readiness.
\<close>

theorem run_rejected_without_effect:
  "(isRunning s \<or> \<not> cheerpjReady s \<longrightarrow>
      runCode_start eng s = (s, Finished) \<and> runCode eng s = s) \<and>
   (isRunning v \<longrightarrow> SimpleJavaRunner_runCode_start eng v = (v, Finished))"
  using runCode_start_rejects[of s eng] runCode_rejects[of s eng]
    SimpleJavaRunner_runCode_start_rejects[of v eng]
  by blast

text \<open>A busy component, a component that is not ready, a busy page.\<close>

theorem run_rejected_without_effect_witness:
  "runCode (exit_engine 0) (mounted\<lparr>isRunning := True\<rparr>) = mounted\<lparr>isRunning := True\<rparr> \<and>
   runCode (exit_engine 0) (mounted\<lparr>cheerpjReady := False\<rparr>) = mounted\<lparr>cheerpjReady := False\<rparr> \<and>
   SimpleJavaRunner_runCode_start (exit_engine 0) (used_page\<lparr>isRunning := True\<rparr>) =
     (used_page\<lparr>isRunning := True\<rparr>, Finished)"
  using run_rejected_without_effect[of "mounted\<lparr>isRunning := True\<rparr>" "exit_engine 0" "used_page\<lparr>isRunning := True\<rparr>"]
    run_rejected_without_effect[of "mounted\<lparr>cheerpjReady := False\<rparr>" "exit_engine 0" "used_page\<lparr>isRunning := True\<rparr>"]
  by simp

text \<open>
  C1 fails for script.js. On a page whose console holds the output of an earlier run and
  whose observer is installed, the first trigger clears the console; that mutation is
  delivered to the observer as soon as the handler returns, and the observer clears the
  busy flag while the compiler is still running. A second trigger then passes the guard
  and compiles again: two compile calls, not one.
\<close>

theorem second_trigger_compiles_again:
  "snd (SimpleJavaRunner_trigger slow_engine used_page) = AwaitCompile None \<and>
   isRunning (fst (SimpleJavaRunner_runCode_start slow_engine used_page)) \<and>
   \<not> isRunning (fst (SimpleJavaRunner_trigger slow_engine used_page)) \<and>
   calls (fst (SimpleJavaRunner_trigger slow_engine
            (fst (SimpleJavaRunner_trigger slow_engine used_page)))) =
     [AddStringFile source_path (Utf8 DEFAULT_JAVA_CODE), RunMain javac classPath javac_args,
      AddStringFile source_path (Utf8 DEFAULT_JAVA_CODE), RunMain javac classPath javac_args]"
proof -
  have i: "\<not> isRunning used_page" by (simp add: used_page_def)
  have t: "SimpleJavaRunner_trigger slow_engine used_page =
      (deliver ((SimpleJavaRunner_clearOutput (SimpleJavaRunner_clearConsole
          (SimpleJavaRunner_setRunning True used_page)))
        \<lparr>calls := calls used_page @ [AddStringFile source_path (Utf8 (currentCode used_page)),
           RunMain javac classPath javac_args]\<rparr>), AwaitCompile None)"
    by (simp add: SimpleJavaRunner_trigger_def SimpleJavaRunner_runCode_start_cases[OF i]
        slow_engine_def)
  have q: "\<not> isRunning (fst (SimpleJavaRunner_trigger slow_engine used_page))"
    unfolding t by (simp add: used_page_def utf16_def nl_def)
  have r: "isRunning (fst (SimpleJavaRunner_runCode_start slow_engine used_page))"
    by (simp add: SimpleJavaRunner_runCode_start_cases[OF i] slow_engine_def)
  have "calls (fst (SimpleJavaRunner_trigger slow_engine v)) =
      calls v @ [AddStringFile source_path (Utf8 (currentCode v)), RunMain javac classPath javac_args]"
    if "\<not> isRunning v" for v
    by (simp add: SimpleJavaRunner_trigger_def SimpleJavaRunner_runCode_start_cases[OF that]
        slow_engine_def)
  from this[OF q] have c: "calls (fst (SimpleJavaRunner_trigger slow_engine
            (fst (SimpleJavaRunner_trigger slow_engine used_page)))) =
     [AddStringFile source_path (Utf8 DEFAULT_JAVA_CODE), RunMain javac classPath javac_args,
      AddStringFile source_path (Utf8 DEFAULT_JAVA_CODE), RunMain javac classPath javac_args]"
    by (simp add: t) (simp add: used_page_def)
  show ?thesis using t q r c by simp
qed

text \<open>
  In JavaRunner.tsx the first segment of a run sets the busy flag and nothing clears it
  before the timer: a second trigger is rejected, whether the first run is waiting for the
  compiler, for the program or for the timer.
\<close>

theorem second_trigger_rejected:
  "cheerpjReady s \<and> \<not> isRunning s \<longrightarrow>
     runCode_start eng (fst (runCode_start eng s)) = (fst (runCode_start eng s), Finished) \<and>
     runCode_start eng (runCode eng s) = (runCode eng s, Finished)"
proof (intro impI conjI)
  assume a: "cheerpjReady s \<and> \<not> isRunning s"
  then have "isRunning (fst (runCode_start eng s))" by (simp add: react_busy_after_start)
  then show "runCode_start eng (fst (runCode_start eng s)) = (fst (runCode_start eng s), Finished)"
    by (simp add: runCode_start_rejects)
  have "isRunning (runCode eng s)"
    using a
    by (simp add: runCode_unfold runCode_compiled_def runCode_launched_def Let_def
        split: option.split invocation.split settlement.split)
  then show "runCode_start eng (runCode eng s) = (runCode eng s, Finished)"
    by (simp add: runCode_start_rejects)
qed

theorem second_trigger_rejected_witness:
  "calls (fst (runCode_start slow_engine (fst (runCode_start slow_engine mounted)))) =
     [AddStringFile source_path (Utf8 DEFAULT_JAVA_CODE), RunMain javac classPath javac_args]"
proof -
  have i: "cheerpjReady mounted" "\<not> isRunning mounted" by (simp_all add: mounted_def)
  have "calls (fst (runCode_start slow_engine mounted)) =
     [AddStringFile source_path (Utf8 DEFAULT_JAVA_CODE), RunMain javac classPath javac_args]"
    by (simp add: runCode_start_cases[OF i] slow_engine_def) (simp add: mounted_def)
  then show ?thesis using second_trigger_rejected[of mounted slow_engine] i by simp
qed

text \<open>
  The timer is armed in the \<^verbatim>\<open>finally\<close> block, which a run reaches only when the promise
  it awaits has settled. In JavaRunner.tsx a run whose compile promise stays pending arms
  no timer and leaves the busy flag set.
\<close>

theorem pending_compile_keeps_busy:
  "cheerpjReady s \<and> \<not> isRunning s \<and>
   cheerpjAddStringFile eng source_path (Utf8 (currentCode s)) = None \<and>
   cheerpjRunMain eng javac classPath javac_args = Promise None \<longrightarrow>
     isRunning (runCode eng s) \<and> timeouts (runCode eng s) = timeouts s"
  by (simp add: runCode_unfold)

theorem pending_compile_keeps_busy_witness:
  "isRunning (runCode slow_engine mounted) \<and> timeouts (runCode slow_engine mounted) = 0"
  using pending_compile_keeps_busy[of mounted slow_engine]
  by (simp add: mounted_def slow_engine_def)

end
